theory Spec2Isabelle
  imports Main "HOL-Library.Sublist" "HOL-Library.Char_ord"
begin

section \<open>Data model (types.ts)\<close>

text \<open>
  Numbers are modelled as integers: timestamps are epoch milliseconds and stress scores are
  whole numbers in the export. A sample record is polymorphic in its number type: the
  TypeScript interface promises numbers (\<open>int HealthDataPoint\<close>), while the archive reader
  stores whatever the parsed document held at run time (\<open>json HealthDataPoint\<close>, below).
  The field \<open>value\<close> of the source is called \<open>val\<close>, and the field \<open>end\<close> of the visible
  window is called \<open>end'\<close>, since both words are reserved.
\<close>

definition STRESS_THRESHOLD :: int where
  "STRESS_THRESHOLD = 80"

record 'n HealthDataPoint =
  timestamp :: 'n
  val :: 'n
  type :: string

record FlightEvent =
  event :: string
  ev_timestamp :: int
  details :: string

record TimeRange =
  start :: int
  end' :: int

text \<open>The exceptions the code can throw.\<close>

datatype js_error = TypeError | SyntaxError | RangeError

section \<open>Math.min and Math.max over a spread list\<close>

text \<open>
  \<open>Math.min(...xs)\<close> of an empty list is \<open>Infinity\<close> and \<open>Math.max(...xs)\<close> is \<open>-Infinity\<close>;
  both are \<open>None\<close> here.
\<close>

fun Math_min :: "int list \<Rightarrow> int option" where
  "Math_min [] = None"
| "Math_min (x # xs) = Some (fold min xs x)"

fun Math_max :: "int list \<Rightarrow> int option" where
  "Math_max [] = None"
| "Math_max (x # xs) = Some (fold max xs x)"

section \<open>Local calendar time\<close>

text \<open>
  The evaluating environment's timezone is a parameter. A zone is given by the offset of
  local time from UTC, in milliseconds, that holds before its first listed change, and by
  the chronological list of its offset changes: each is the UTC instant from which a new
  offset holds. A zone without changes has a constant offset.
\<close>

record Zone =
  initialOffset :: int
  changes :: "(int \<times> int) list"

definition msPerDay :: int where
  "msPerDay = 86400000"

fun offsetFrom :: "int \<Rightarrow> (int \<times> int) list \<Rightarrow> int \<Rightarrow> int" where
  "offsetFrom off [] t = off"
| "offsetFrom off ((T, off') # rest) t = (if t < T then off else offsetFrom off' rest t)"

definition offsetAt :: "Zone \<Rightarrow> int \<Rightarrow> int" where
  "offsetAt z t = offsetFrom (initialOffset z) (changes z) t"

definition LocalTime :: "Zone \<Rightarrow> int \<Rightarrow> int" where
  "LocalTime z t = t + offsetAt z t"

text \<open>
  The conversion of a local time value to UTC follows the language definition. The possible
  instants are those whose local time is the given value, in ascending order: one in general,
  two where the clock is set back and shows the value twice, none where the clock is set
  forward and skips it. The first possible instant is taken; a skipped value is read with the
  offset in force before the change that skips it.
\<close>

fun possibleInstantsFrom :: "int \<Rightarrow> (int \<times> int) list \<Rightarrow> int \<Rightarrow> int list" where
  "possibleInstantsFrom off [] lv = [lv - off]"
| "possibleInstantsFrom off ((T, off') # rest) lv =
     (if lv - off < T then [lv - off] else [])
       @ filter (\<lambda>u. T \<le> u) (possibleInstantsFrom off' rest lv)"

fun offsetBeforeGap :: "int \<Rightarrow> (int \<times> int) list \<Rightarrow> int \<Rightarrow> int" where
  "offsetBeforeGap off [] lv = off"
| "offsetBeforeGap off ((T, off') # rest) lv =
     (if lv - off' < T then off else offsetBeforeGap off' rest lv)"

definition possibleInstants :: "Zone \<Rightarrow> int \<Rightarrow> int list" where
  "possibleInstants z lv = possibleInstantsFrom (initialOffset z) (changes z) lv"

definition UTC :: "Zone \<Rightarrow> int \<Rightarrow> int" where
  "UTC z lv =
     (case possibleInstants z lv of
        u # us \<Rightarrow> u
      | [] \<Rightarrow> lv - offsetBeforeGap (initialOffset z) (changes z) lv)"

definition Day :: "int \<Rightarrow> int" where
  "Day t = t div msPerDay"

definition TimeWithinDay :: "int \<Rightarrow> int" where
  "TimeWithinDay t = t mod msPerDay"



definition MakeTime :: "int \<Rightarrow> int \<Rightarrow> int \<Rightarrow> int \<Rightarrow> int" where
  "MakeTime h m s ms = ((h * 60 + m) * 60 + s) * 1000 + ms"

text \<open>
  \<open>setHours\<close> splits the local time value into its day number, replaces the time within the
  day, and converts back to UTC. The timestamps it is applied to are time values of Date
  objects; the clipping of its result to the Date range, which matters only within a day of
  the ends of that range, is not modelled.
\<close>

definition setHours :: "Zone \<Rightarrow> int \<Rightarrow> int \<Rightarrow> int \<Rightarrow> int \<Rightarrow> int \<Rightarrow> int" where
  "setHours z t h m s ms = UTC z (Day (LocalTime z t) * msPerDay + MakeTime h m s ms)"













section \<open>App.tsx: handleGenerateAnalysis\<close>

text \<open>
  The travel window is \<open>None\<close> when the event list is empty: the dates built from
  \<open>Infinity\<close> are invalid and their \<open>getTime()\<close> is not a number.
\<close>

definition travelWindow :: "Zone \<Rightarrow> FlightEvent list \<Rightarrow> (int \<times> int) option" where
  "travelWindow z events =
     (let eventTimestamps = map ev_timestamp events in
      case (Math_min eventTimestamps, Math_max eventTimestamps) of
        (Some travelStart, Some travelEnd) \<Rightarrow>
          (let travelDayStart = setHours z travelStart 0 0 0 0;
               travelDayEnd = setHours z travelEnd 23 59 59 999
           in Some (travelDayStart, travelDayEnd))
      | _ \<Rightarrow> None)"

text \<open>
  A comparison with a not-a-number bound is false, so without a window every sample is
  filtered out.
\<close>

definition highStressPeriods ::
    "Zone \<Rightarrow> int HealthDataPoint list \<Rightarrow> FlightEvent list \<Rightarrow> (int \<times> int) list" where
  "highStressPeriods z healthData events =
     (case travelWindow z events of
        None \<Rightarrow> []
      | Some (travelDayStart, travelDayEnd) \<Rightarrow>
          map (\<lambda>d. (timestamp d, val d))
            (filter (\<lambda>d. type d = ''stress'' \<and> val d \<ge> STRESS_THRESHOLD)
              (filter (\<lambda>d. timestamp d \<ge> travelDayStart \<and> timestamp d \<le> travelDayEnd)
                healthData)))"

section \<open>DataVisualization.tsx: the visible window and the sample filter\<close>

definition THREE_HOURS_MS :: int where
  "THREE_HOURS_MS = 3 * 60 * 60 * 1000"

definition initialTimeRange :: TimeRange where
  "initialTimeRange = \<lparr>start = 0, end' = 0\<rparr>"

text \<open>The effect that seeds the window: it leaves the state alone for an empty event list.\<close>

definition seedTimeRange :: "FlightEvent list \<Rightarrow> TimeRange \<Rightarrow> TimeRange" where
  "seedTimeRange flightEvents timeRange =
     (let flightTimestamps = map ev_timestamp flightEvents in
      case (Math_min flightTimestamps, Math_max flightTimestamps) of
        (Some minTimestamp, Some maxTimestamp) \<Rightarrow>
          \<lparr>start = minTimestamp - THREE_HOURS_MS, end' = maxTimestamp + THREE_HOURS_MS\<rparr>
      | _ \<Rightarrow> timeRange)"

definition filteredHealthData ::
    "int HealthDataPoint list \<Rightarrow> TimeRange \<Rightarrow> int HealthDataPoint list" where
  "filteredHealthData healthData timeRange =
     (if start timeRange = 0 \<or> end' timeRange = 0 then healthData
      else filter (\<lambda>d. timestamp d \<ge> start timeRange \<and> timestamp d \<le> end' timeRange)
             healthData)"

section \<open>Strings\<close>

text \<open>
  Strings are ASCII text. \<open>toLowerCase\<close> maps the letters A to Z to a to z and leaves every
  other character alone; \<open>str_includes\<close> (the method \<open>includes\<close>) tests for a contiguous occurrence and \<open>endsWith\<close> for
  a suffix. \<open>numberToString\<close> is the decimal rendering a template literal gives a count.
\<close>

definition toLowerChar :: "char \<Rightarrow> char" where
  "toLowerChar c =
     (if CHR ''A'' \<le> c \<and> c \<le> CHR ''Z'' then char_of (of_char c + (32::nat)) else c)"

definition toLowerCase :: "string \<Rightarrow> string" where
  "toLowerCase s = map toLowerChar s"

definition str_includes :: "string \<Rightarrow> string \<Rightarrow> bool" where
  "str_includes s sub = sublist sub s"

definition endsWith :: "string \<Rightarrow> string \<Rightarrow> bool" where
  "endsWith s suf = suffix suf s"

definition digitChar :: "nat \<Rightarrow> char" where
  "digitChar d = char_of (48 + d)"

fun numberToString :: "nat \<Rightarrow> string" where
  "numberToString n =
     (if n < 10 then [digitChar n] else numberToString (n div 10) @ [digitChar (n mod 10)])"

declare numberToString.simps [simp del]

section \<open>Array.prototype.sort with a comparator\<close>

text \<open>
  The sort is stable. It is modelled as insertion from the right, where an element goes in
  front of the first element it does not compare greater than. For a comparator that is
  a difference of numeric keys every stable sort gives this result; for an inconsistent
  comparator the language leaves the order to the engine, and the model fixes this one.
\<close>

fun insert_by :: "('a \<Rightarrow> 'a \<Rightarrow> int) \<Rightarrow> 'a \<Rightarrow> 'a list \<Rightarrow> 'a list" where
  "insert_by cmp x [] = [x]"
| "insert_by cmp x (y # ys) = (if cmp x y \<le> 0 then x # y # ys else y # insert_by cmp x ys)"

definition sort_by :: "('a \<Rightarrow> 'a \<Rightarrow> int) \<Rightarrow> 'a list \<Rightarrow> 'a list" where
  "sort_by cmp xs = foldr (insert_by cmp) xs []"

section \<open>DataVisualization.tsx: per-minute chart buckets\<close>

text \<open>
  A bucket's key in the source is the ISO string of the date built from the sample's local
  year, month, day, hour and minute, and the buckets are later ordered by the instant read
  back from that string. The string is a one-to-one rendering of the instant, so the model
  keeps the instant itself as the key (\<open>int ChartDataPoint\<close>); the final step replaces it
  by the display label (\<open>string ChartDataPoint\<close>). The display label function
  \<open>timeToLabel\<close> depends on the locale and is a parameter.
\<close>

record 't ChartDataPoint =
  time :: 't
  stress :: "int option"






section \<open>DataVisualization.tsx: phase intervals (referenceAreas)\<close>

record Area =
  x1 :: string
  x2 :: string
  label :: string
  fill :: string

text \<open>
  The scan keeps two single-slot accumulators, the running flight counter and the areas
  pushed so far. An open slot holds the opening timestamp, a closed one is \<open>None\<close>.
\<close>

record PhaseState =
  currentFlight :: "int option"
  currentTransit :: "int option"
  flightCount :: nat
  areas :: "Area list"

definition initialPhaseState :: PhaseState where
  "initialPhaseState =
     \<lparr>currentFlight = None, currentTransit = None, flightCount = 0, areas = []\<rparr>"

definition flightFill :: string where
  "flightFill = ''rgba(59, 130, 246, 0.15)''"

definition transitFill :: string where
  "transitFill = ''rgba(249, 115, 22, 0.15)''"

definition phaseStep :: "(int \<Rightarrow> string) \<Rightarrow> PhaseState \<Rightarrow> FlightEvent \<Rightarrow> PhaseState" where
  "phaseStep timeToLabel s e =
     (let lowerEvent = toLowerCase (event e) in
      if str_includes lowerEvent ''takeoff'' \<and> currentFlight s = None
      then s\<lparr>currentFlight := Some (ev_timestamp e)\<rparr>
      else if str_includes lowerEvent ''landing'' \<and> currentFlight s \<noteq> None
      then (case currentFlight s of
              None \<Rightarrow> s
            | Some flightStart \<Rightarrow>
                s\<lparr>flightCount := flightCount s + 1,
                  areas := areas s @
                    [\<lparr>x1 = timeToLabel flightStart, x2 = timeToLabel (ev_timestamp e),
                      label = ''In Flight '' @ numberToString (flightCount s + 1),
                      fill = flightFill\<rparr>],
                  currentFlight := None\<rparr>)
      else if str_includes lowerEvent ''transit start'' \<and> currentTransit s = None
      then s\<lparr>currentTransit := Some (ev_timestamp e)\<rparr>
      else if str_includes lowerEvent ''transit end'' \<and> currentTransit s \<noteq> None
      then (case currentTransit s of
              None \<Rightarrow> s
            | Some transitStart \<Rightarrow>
                s\<lparr>areas := areas s @
                    [\<lparr>x1 = timeToLabel transitStart, x2 = timeToLabel (ev_timestamp e),
                      label = ''Transit'', fill = transitFill\<rparr>],
                  currentTransit := None\<rparr>)
      else s)"

definition sortedEvents :: "FlightEvent list \<Rightarrow> FlightEvent list" where
  "sortedEvents flightEvents = sort_by (\<lambda>a b. ev_timestamp a - ev_timestamp b) flightEvents"

definition scanEvents :: "(int \<Rightarrow> string) \<Rightarrow> PhaseState \<Rightarrow> FlightEvent list \<Rightarrow> PhaseState" where
  "scanEvents timeToLabel s es = foldl (phaseStep timeToLabel) s es"

text \<open>The areas pushed by the scan, before the window filter.\<close>

definition derivedAreas :: "(int \<Rightarrow> string) \<Rightarrow> FlightEvent list \<Rightarrow> Area list" where
  "derivedAreas timeToLabel flightEvents =
     areas (scanEvents timeToLabel initialPhaseState (sortedEvents flightEvents))"

text \<open>\<open>flightEvents.find(e => timeToLabel(e.timestamp) === l)\<close>: the first event with the label.\<close>

definition findByLabel :: "(int \<Rightarrow> string) \<Rightarrow> FlightEvent list \<Rightarrow> string \<Rightarrow> FlightEvent option" where
  "findByLabel timeToLabel flightEvents l =
     find (\<lambda>e. timeToLabel (ev_timestamp e) = l) flightEvents"

definition areaVisible :: "(int \<Rightarrow> string) \<Rightarrow> FlightEvent list \<Rightarrow> TimeRange \<Rightarrow> Area \<Rightarrow> bool" where
  "areaVisible timeToLabel flightEvents timeRange area =
     (case (findByLabel timeToLabel flightEvents (x1 area),
            findByLabel timeToLabel flightEvents (x2 area)) of
        (Some startEvent, Some endEvent) \<Rightarrow>
          ev_timestamp startEvent \<ge> start timeRange \<and> ev_timestamp endEvent \<le> end' timeRange
      | _ \<Rightarrow> False)"

definition referenceAreas ::
    "(int \<Rightarrow> string) \<Rightarrow> FlightEvent list \<Rightarrow> TimeRange \<Rightarrow> Area list" where
  "referenceAreas timeToLabel flightEvents timeRange =
     filter (areaVisible timeToLabel flightEvents timeRange)
       (derivedAreas timeToLabel flightEvents)"

text \<open>
  The labels of a 24-hour locale, \<open>HH:MM\<close>, at a constant offset \<open>off\<close> from UTC: one
  instance of the locale dependent \<open>timeToLabel\<close>, used in the examples.
\<close>

definition twoDigits :: "nat \<Rightarrow> string" where
  "twoDigits n = [digitChar (n div 10 mod 10), digitChar (n mod 10)]"

definition timeToLabel24 :: "int \<Rightarrow> int \<Rightarrow> string" where
  "timeToLabel24 off t =
     (let m = nat (TimeWithinDay (t + off) div 60000)
      in twoDigits (m div 60) @ '':'' @ twoDigits (m mod 60))"

section \<open>samsungHealthService.ts: the archive reader\<close>

text \<open>
  A parsed document is a JSON value; an object holds each key once. \<open>undefined\<close> is
  \<open>None\<close> of an option. Reading a property of \<open>null\<close> throws a TypeError; reading one of
  the properties used here from a number, a string, a boolean or an array gives
  \<open>undefined\<close>.
\<close>

datatype json =
    JNull
  | JBool bool
  | JNum int
  | JStr string
  | JArr "json list"
  | JObj "(string \<times> json) list"

fun get_prop :: "json \<Rightarrow> string \<Rightarrow> js_error + json option" where
  "get_prop JNull k = Inl TypeError"
| "get_prop (JObj kvs) k = Inr (map_of kvs k)"
| "get_prop (JBool b) k = Inr None"
| "get_prop (JNum n) k = Inr None"
| "get_prop (JStr s) k = Inr None"
| "get_prop (JArr xs) k = Inr None"

fun truthy :: "json \<Rightarrow> bool" where
  "truthy JNull = False"
| "truthy (JBool b) = b"
| "truthy (JNum n) = (n \<noteq> 0)"
| "truthy (JStr s) = (s \<noteq> [])"
| "truthy (JArr xs) = True"
| "truthy (JObj kvs) = True"

fun isArray :: "json \<Rightarrow> bool" where
  "isArray (JArr xs) = True"
| "isArray _ = False"

text \<open>
  \<open>Array.isArray(data) ? data : data.data || data.binning_data || []\<close>. The second
  property is read only when the first is missing or falsy.
\<close>

definition dataPoints :: "json \<Rightarrow> js_error + json" where
  "dataPoints data =
     (if isArray data then Inr data
      else case get_prop data ''data'' of
             Inl err \<Rightarrow> Inl err
           | Inr (Some d) \<Rightarrow>
               if truthy d then Inr d
               else (case get_prop data ''binning_data'' of
                       Inl err \<Rightarrow> Inl err
                     | Inr (Some b) \<Rightarrow> if truthy b then Inr b else Inr (JArr [])
                     | Inr None \<Rightarrow> Inr (JArr []))
           | Inr None \<Rightarrow>
               (case get_prop data ''binning_data'' of
                  Inl err \<Rightarrow> Inl err
                | Inr (Some b) \<Rightarrow> if truthy b then Inr b else Inr (JArr [])
                | Inr None \<Rightarrow> Inr (JArr [])))"

text \<open>
  \<open>for (const point of dataPoints)\<close>: an array yields its elements, a string its
  characters, and any other value is not iterable.
\<close>

fun iterate :: "json \<Rightarrow> js_error + json list" where
  "iterate (JArr xs) = Inr xs"
| "iterate (JStr s) = Inr (map (\<lambda>c. JStr [c]) s)"
| "iterate _ = Inl TypeError"

text \<open>
  The loop over the records of one member. A throw leaves the loop with the samples pushed
  so far still in \<open>healthData\<close>.
\<close>

fun pushPoints ::
    "string \<Rightarrow> json list \<Rightarrow> json HealthDataPoint list
       \<Rightarrow> js_error option \<times> json HealthDataPoint list" where
  "pushPoints ty [] healthData = (None, healthData)"
| "pushPoints ty (point # rest) healthData =
     (case get_prop point ''end_time'' of
        Inl err \<Rightarrow> (Some err, healthData)
      | Inr timestamp' \<Rightarrow>
          (case (if ty = ''stress'' then get_prop point ''score'' else Inr None) of
             Inl err \<Rightarrow> (Some err, healthData)
           | Inr value \<Rightarrow>
               (case (value, timestamp') of
                  (Some v, Some t) \<Rightarrow>
                    pushPoints ty rest (healthData @ [\<lparr>timestamp = t, val = v, type = ty\<rparr>])
                | _ \<Rightarrow> pushPoints ty rest healthData)))"

text \<open>
  An archive member is its path and the result of \<open>JSON.parse\<close> on its text, which is a
  SyntaxError when the text is not valid JSON.
\<close>

record ZipEntry =
  name :: string
  content :: "js_error + json"

definition MAX_FILES_TO_PROCESS :: nat where
  "MAX_FILES_TO_PROCESS = 500"

definition filesToProcess :: "ZipEntry list \<Rightarrow> (ZipEntry \<times> string) list" where
  "filesToProcess archive =
     map (\<lambda>zipEntry. (zipEntry, ''stress''))
       (filter (\<lambda>zipEntry. endsWith (name zipEntry) ''.binning_data.json''
                  \<and> str_includes (name zipEntry) ''com.samsung.shealth.stress'') archive)"

text \<open>
  The body of the loop over the members, with its try and catch: the state is the samples
  pushed so far and the names warned about so far.
\<close>

definition processFile ::
    "json HealthDataPoint list \<times> string list \<Rightarrow> ZipEntry \<times> string
       \<Rightarrow> json HealthDataPoint list \<times> string list" where
  "processFile st file =
     (case (st, file) of
        ((healthData, warnings), (entry, ty)) \<Rightarrow>
          (case content entry of
             Inl err \<Rightarrow> (healthData, warnings @ [name entry])
           | Inr data \<Rightarrow>
               (case dataPoints data of
                  Inl err \<Rightarrow> (healthData, warnings @ [name entry])
                | Inr dps \<Rightarrow>
                    (case iterate dps of
                       Inl err \<Rightarrow> (healthData, warnings @ [name entry])
                     | Inr points \<Rightarrow>
                         (case pushPoints ty points healthData of
                            (Some err, healthData') \<Rightarrow> (healthData', warnings @ [name entry])
                          | (None, healthData') \<Rightarrow> (healthData', warnings))))))"

text \<open>
  The comparator \<open>a.timestamp - b.timestamp\<close> converts both sides to numbers. \<open>null\<close> is 0,
  a boolean is 0 or 1; the conversion of strings, arrays and objects is the parameter
  \<open>conv\<close>, with \<open>None\<close> for not-a-number. A not-a-number difference counts as 0.
\<close>

definition ToNumber :: "(json \<Rightarrow> int option) \<Rightarrow> json \<Rightarrow> int option" where
  "ToNumber conv v =
     (case v of
        JNum n \<Rightarrow> Some n
      | JNull \<Rightarrow> Some 0
      | JBool b \<Rightarrow> Some (if b then 1 else 0)
      | _ \<Rightarrow> conv v)"

definition compareTimestamps ::
    "(json \<Rightarrow> int option) \<Rightarrow> json HealthDataPoint \<Rightarrow> json HealthDataPoint \<Rightarrow> int" where
  "compareTimestamps conv a b =
     (case (ToNumber conv (timestamp a), ToNumber conv (timestamp b)) of
        (Some x, Some y) \<Rightarrow> x - y
      | _ \<Rightarrow> 0)"

text \<open>The result is the sorted samples; the warnings are returned beside them.\<close>

definition parseSamsungHealthZip ::
    "(json \<Rightarrow> int option) \<Rightarrow> ZipEntry list \<Rightarrow> json HealthDataPoint list \<times> string list" where
  "parseSamsungHealthZip conv archive =
     (case foldl processFile ([], []) (take MAX_FILES_TO_PROCESS (filesToProcess archive)) of
        (healthData, warnings) \<Rightarrow> (sort_by (compareTimestamps conv) healthData, warnings))"

section \<open>Notions used in the statements\<close>

text \<open>The flight areas and the transit areas among a list of areas, told apart by their fill.\<close>

definition flightAreas :: "Area list \<Rightarrow> Area list" where
  "flightAreas as = filter (\<lambda>a. fill a = flightFill) as"

definition transitAreas :: "Area list \<Rightarrow> Area list" where
  "transitAreas as = filter (\<lambda>a. fill a = transitFill) as"

definition isTakeoff :: "FlightEvent \<Rightarrow> bool" where
  "isTakeoff e = str_includes (toLowerCase (event e)) ''takeoff''"

definition isLanding :: "FlightEvent \<Rightarrow> bool" where
  "isLanding e = str_includes (toLowerCase (event e)) ''landing''"

definition isTransitStart :: "FlightEvent \<Rightarrow> bool" where
  "isTransitStart e = str_includes (toLowerCase (event e)) ''transit start''"

definition isTransitEnd :: "FlightEvent \<Rightarrow> bool" where
  "isTransitEnd e = str_includes (toLowerCase (event e)) ''transit end''"

text \<open>
  The scan's invariant used for the window filter: every label stored in an area, and every
  open slot, comes from an event of the list.
\<close>

definition labelsFromEvents :: "(int \<Rightarrow> string) \<Rightarrow> FlightEvent list \<Rightarrow> PhaseState \<Rightarrow> bool" where
  "labelsFromEvents L evs s =
     ((\<forall>a\<in>set (areas s). (\<exists>e\<in>set evs. L (ev_timestamp e) = x1 a)
                          \<and> (\<exists>e\<in>set evs. L (ev_timestamp e) = x2 a))
      \<and> (\<forall>t. currentFlight s = Some t \<longrightarrow> (\<exists>e\<in>set evs. ev_timestamp e = t))
      \<and> (\<forall>t. currentTransit s = Some t \<longrightarrow> (\<exists>e\<in>set evs. ev_timestamp e = t)))"





text \<open>
  A local time value is shown by the zone's clock when some instant has it as its local
  time.
\<close>

definition clockShows :: "Zone \<Rightarrow> int \<Rightarrow> bool" where
  "clockShows z lv = (possibleInstants z lv \<noteq> [])"

text \<open>
  The samples and the warnings one member contributes on its own. A member is malformed when
  its text did not parse.
\<close>

definition fileSamples :: "ZipEntry \<times> string \<Rightarrow> json HealthDataPoint list" where
  "fileSamples file = fst (processFile ([], []) file)"

definition fileWarnings :: "ZipEntry \<times> string \<Rightarrow> string list" where
  "fileWarnings file = snd (processFile ([], []) file)"

definition malformed :: "ZipEntry \<times> string \<Rightarrow> bool" where
  "malformed file = (case content (fst file) of Inl err \<Rightarrow> True | Inr data \<Rightarrow> False)"

text \<open>
  The record container as the specification words it: the value itself if it is an array,
  else the \<open>data\<close> field if that is an array, else the \<open>binning_data\<close> field if that is
  an array, else nothing. It is compared with \<open>dataPoints\<close> followed by \<open>iterate\<close>.
\<close>

definition specContainer :: "json \<Rightarrow> json list" where
  "specContainer data =
     (case data of
        JArr xs \<Rightarrow> xs
      | JObj kvs \<Rightarrow>
          (case map_of kvs ''data'' of
             Some (JArr xs) \<Rightarrow> xs
           | _ \<Rightarrow> (case map_of kvs ''binning_data'' of Some (JArr xs) \<Rightarrow> xs | _ \<Rightarrow> []))
      | _ \<Rightarrow> [])"

text \<open>Conditions on a field of the document: missing or falsy; missing, falsy or an array.\<close>

definition falsyOrMissing :: "json option \<Rightarrow> bool" where
  "falsyOrMissing v = (case v of None \<Rightarrow> True | Some x \<Rightarrow> \<not> truthy x)"

definition arrayOrFalsy :: "json option \<Rightarrow> bool" where
  "arrayOrFalsy v = (case v of None \<Rightarrow> True | Some x \<Rightarrow> isArray x \<or> \<not> truthy x)"

text \<open>
  Being a number, the order of two samples by numeric timestamp, and the numeric timestamp
  of a sample as a sort key (0 stands in where the timestamp is not a number).
\<close>

definition isNumber :: "json \<Rightarrow> bool" where
  "isNumber v = (case v of JNum n \<Rightarrow> True | _ \<Rightarrow> False)"

definition timestampLe :: "json HealthDataPoint \<Rightarrow> json HealthDataPoint \<Rightarrow> bool" where
  "timestampLe a b = (case (timestamp a, timestamp b) of (JNum x, JNum y) \<Rightarrow> x \<le> y | _ \<Rightarrow> False)"

definition numericKey :: "json HealthDataPoint \<Rightarrow> int" where
  "numericKey a = (case timestamp a of JNum x \<Rightarrow> x | _ \<Rightarrow> 0)"

section \<open>Example inputs\<close>

text \<open>
  Three zones: UTC; New York in 2024, five hours behind UTC, four from 2024-03-10T07:00Z
  (02:00 becomes 03:00) to 2024-11-03T06:00Z (02:00 becomes 01:00); Havana in 2024, five hours
  behind UTC, four from 2024-03-10T05:00Z (midnight becomes 01:00) to 2024-11-03T05:00Z.
\<close>

definition utcZone :: Zone where
  "utcZone = \<lparr>initialOffset = 0, changes = []\<rparr>"



text \<open>
  Timestamps are epoch milliseconds: 1704067200000 is 2024-01-01T00:00:00Z and 1710028800000
  is 2024-03-10T00:00:00Z. The overnight trip runs from 23:30 on 9 March 2024 to 03:15 on
  10 March in New York, the night its clock is set forward; the Havana trip runs from 11:00
  to 15:00 on 10 March 2024 in Havana, the day that has no midnight there.
\<close>

definition flightEvent :: "string \<Rightarrow> int \<Rightarrow> FlightEvent" where
  "flightEvent n t = \<lparr>event = n, ev_timestamp = t, details = ''''\<rparr>"

definition stressSample :: "int \<Rightarrow> int \<Rightarrow> int HealthDataPoint" where
  "stressSample t v = \<lparr>timestamp = t, val = v, type = ''stress''\<rparr>"



definition dayEvents :: "FlightEvent list" where
  "dayEvents =
     [flightEvent ''Takeoff (Leg 1)'' 1704103200000, flightEvent ''Landing (Leg 1)'' 1704117600000]"

definition daySamples :: "int HealthDataPoint list" where
  "daySamples =
     [stressSample 1704110400000 90, stressSample 1704110400000 70,
      stressSample 1704196800000 95]"

definition windowSamples :: "int HealthDataPoint list" where
  "windowSamples = [stressSample 5 81, stressSample 20 40, stressSample 50 99]"

definition twoLegEvents :: "FlightEvent list" where
  "twoLegEvents =
     [flightEvent ''Takeoff (Leg 1)'' 1704103200000,
      flightEvent ''Landing (Leg 1)'' 1704117600000,
      flightEvent ''Transit Start'' 1704117600000,
      flightEvent ''Transit End'' 1704124800000,
      flightEvent ''Takeoff (Leg 2)'' 1704124800000,
      flightEvent ''Landing (Leg 2)'' 1704135600000]"

definition unmatchedEvents :: "FlightEvent list" where
  "unmatchedEvents =
     [flightEvent ''Landing (Leg 1)'' 1704103200000,
      flightEvent ''Transit Start'' 1704110400000,
      flightEvent ''Takeoff (Leg 2)'' 1704117600000]"

text \<open>
  A trip whose landing, a day after the arrival at the airport, shows the same clock time as
  that arrival; and a window whose start the user has moved to 09:00 of the first day.
\<close>

definition longHaulEvents :: "FlightEvent list" where
  "longHaulEvents =
     [flightEvent ''Arrive at Airport'' 1704096000000,
      flightEvent ''Takeoff (Leg 1)'' 1704103200000,
      flightEvent ''Landing (Leg 1)'' 1704182400000]"

definition narrowedWindow :: TimeRange where
  "narrowedWindow = \<lparr>start = 1704099600000, end' = 1704193200000\<rparr>"






text \<open>A conversion for inputs whose timestamps are all numbers, where it is never consulted.\<close>

definition unusedConv :: "json \<Rightarrow> int option" where
  "unusedConv v = None"

text \<open>
  Documents and archives. The example archive holds a member that parses, one that does not,
  one outside the stress category, and one that keeps its records under \<open>binning_data\<close>
  with a record lacking \<open>end_time\<close>.
\<close>

definition stressRecord :: "int \<Rightarrow> int \<Rightarrow> json" where
  "stressRecord score end_time = JObj [(''score'', JNum score), (''end_time'', JNum end_time)]"

definition stressPath :: "string \<Rightarrow> string" where
  "stressPath file = ''com.samsung.shealth.stress/'' @ file @ ''.binning_data.json''"

definition exampleArchive :: "ZipEntry list" where
  "exampleArchive =
     [\<lparr>name = stressPath ''a'', content = Inr (JArr [stressRecord 85 1700000000000])\<rparr>,
      \<lparr>name = stressPath ''b'', content = Inl SyntaxError\<rparr>,
      \<lparr>name = ''com.samsung.shealth.sleep/d.binning_data.json'',
       content = Inr (JArr [stressRecord 99 1500000000000])\<rparr>,
      \<lparr>name = stressPath ''c'',
       content = Inr (JObj [(''binning_data'',
                   JArr [stressRecord 40 1600000000000, JObj [(''score'', JNum 3)]])])\<rparr>]"

definition textScoreArchive :: "ZipEntry list" where
  "textScoreArchive =
     [\<lparr>name = stressPath ''x'',
       content = Inr (JArr [JObj [(''score'', JStr ''high''), (''end_time'', JNum 1700000000000)]])\<rparr>]"

definition dataFirstMember :: json where
  "dataFirstMember =
     JObj [(''data'', JNum 5), (''binning_data'', JArr [stressRecord 85 1700000000000])]"

section \<open>Helper facts\<close>



lemma possibleInstantsFrom_iff:
  "u \<in> set (possibleInstantsFrom off cs lv) \<longleftrightarrow> u + offsetFrom off cs u = lv"
  by (induction off cs lv rule: possibleInstantsFrom.induct) auto

lemma possibleInstants_iff: "u \<in> set (possibleInstants z lv) \<longleftrightarrow> LocalTime z u = lv"
  by (simp add: possibleInstants_def LocalTime_def offsetAt_def possibleInstantsFrom_iff)

lemma clockShows_iff: "clockShows z lv \<longleftrightarrow> (\<exists>u. LocalTime z u = lv)"
proof
  assume "clockShows z lv"
  then obtain u where "u \<in> set (possibleInstants z lv)"
    by (cases "possibleInstants z lv") (auto simp add: clockShows_def)
  then show "\<exists>u. LocalTime z u = lv"
    by (auto simp add: possibleInstants_iff)
next
  assume "\<exists>u. LocalTime z u = lv"
  then obtain u where "u \<in> set (possibleInstants z lv)"
    by (auto simp add: possibleInstants_iff)
  then show "clockShows z lv"
    by (auto simp add: clockShows_def)
qed









lemma insert_by_key: "insert_by (\<lambda>a b. f a - f b) x xs = insort_key f x xs"
  for f :: "'a \<Rightarrow> int"
  by (induction xs) simp_all

lemma sort_by_key: "sort_by (\<lambda>a b. f a - f b) xs = sort_key f xs"
  for f :: "'a \<Rightarrow> int"
  by (induction xs) (simp_all add: sort_by_def insert_by_key)

lemma sort_by_sorted: "sorted (map f xs) \<Longrightarrow> sort_by (\<lambda>a b. f a - f b) xs = xs"
  for f :: "'a \<Rightarrow> int"
  by (simp add: sort_by_key sort_key_id_if_sorted)

lemma set_sortedEvents: "set (sortedEvents es) = set es"
  by (simp add: sortedEvents_def sort_by_key)

lemma fills_differ: "flightFill \<noteq> transitFill"
  by (simp add: flightFill_def transitFill_def)

lemma phaseStep_cases:
  "phaseStep L s e =
     (if isTakeoff e \<and> currentFlight s = None
      then s\<lparr>currentFlight := Some (ev_timestamp e)\<rparr>
      else if isLanding e \<and> currentFlight s \<noteq> None
      then s\<lparr>flightCount := flightCount s + 1,
             areas := areas s @
                    [\<lparr>x1 = L (the (currentFlight s)), x2 = L (ev_timestamp e),
                      label = ''In Flight '' @ numberToString (flightCount s + 1),
                      fill = flightFill\<rparr>],
             currentFlight := None\<rparr>
      else if isTransitStart e \<and> currentTransit s = None
      then s\<lparr>currentTransit := Some (ev_timestamp e)\<rparr>
      else if isTransitEnd e \<and> currentTransit s \<noteq> None
      then s\<lparr>areas := areas s @
                    [\<lparr>x1 = L (the (currentTransit s)), x2 = L (ev_timestamp e),
                      label = ''Transit'', fill = transitFill\<rparr>],
             currentTransit := None\<rparr>
      else s)"
  by (cases "currentFlight s"; cases "currentTransit s")
     (simp_all add: phaseStep_def Let_def isTakeoff_def isLanding_def isTransitStart_def
        isTransitEnd_def)

lemma scanEvents_Nil: "scanEvents L s [] = s"
  by (simp add: scanEvents_def)

lemma scanEvents_Cons: "scanEvents L s (e # es) = scanEvents L (phaseStep L s e) es"
  by (simp add: scanEvents_def)

lemma scanEvents_snoc: "scanEvents L s (es @ [e]) = phaseStep L (scanEvents L s es) e"
  by (simp add: scanEvents_def)

lemma phaseStep_landing_closed:
  assumes "currentFlight s = None" "isLanding e"
  shows "flightAreas (areas (phaseStep L s e)) = flightAreas (areas s)"
    and "flightCount (phaseStep L s e) = flightCount s"
    and "\<not> isTransitEnd e \<Longrightarrow> areas (phaseStep L s e) = areas s"
  using assms by (simp_all add: phaseStep_cases flightAreas_def fills_differ [symmetric])

lemma phaseStep_no_landing:
  "\<not> isLanding e \<Longrightarrow> flightAreas (areas (phaseStep L s e)) = flightAreas (areas s)"
  by (simp add: phaseStep_cases flightAreas_def fills_differ [symmetric])

lemma phaseStep_no_transit_end:
  "\<not> isTransitEnd e \<Longrightarrow> transitAreas (areas (phaseStep L s e)) = transitAreas (areas s)"
  by (simp add: phaseStep_cases transitAreas_def fills_differ)

lemma phaseStep_no_takeoff:
  assumes "\<not> isTakeoff e" "currentFlight s = None"
  shows "currentFlight (phaseStep L s e) = None"
    and "flightAreas (areas (phaseStep L s e)) = flightAreas (areas s)"
  using assms by (simp_all add: phaseStep_cases flightAreas_def fills_differ [symmetric])

lemma scanEvents_no_landing:
  "\<forall>e\<in>set es. \<not> isLanding e \<Longrightarrow>
   flightAreas (areas (scanEvents L s es)) = flightAreas (areas s)"
  by (induction es arbitrary: s) (simp_all add: scanEvents_Nil scanEvents_Cons phaseStep_no_landing)

lemma scanEvents_no_transit_end:
  "\<forall>e\<in>set es. \<not> isTransitEnd e \<Longrightarrow>
   transitAreas (areas (scanEvents L s es)) = transitAreas (areas s)"
  by (induction es arbitrary: s)
    (simp_all add: scanEvents_Nil scanEvents_Cons phaseStep_no_transit_end)

lemma scanEvents_no_takeoff:
  "\<forall>e\<in>set es. \<not> isTakeoff e \<Longrightarrow> currentFlight s = None \<Longrightarrow>
   flightAreas (areas (scanEvents L s es)) = flightAreas (areas s)"
  by (induction es arbitrary: s) (simp_all add: scanEvents_Nil scanEvents_Cons phaseStep_no_takeoff)

lemma phaseStep_labelsFromEvents:
  assumes "labelsFromEvents L evs s" "e \<in> set evs"
  shows "labelsFromEvents L evs (phaseStep L s e)"
proof -
  have here: "\<exists>e'\<in>set evs. L (ev_timestamp e') = L (ev_timestamp e)"
    using assms(2) by blast
  have here': "\<exists>e'\<in>set evs. ev_timestamp e' = ev_timestamp e"
    using assms(2) by blast
  have fl: "currentFlight s \<noteq> None \<Longrightarrow> \<exists>e'\<in>set evs. L (ev_timestamp e') = L (the (currentFlight s))"
    using assms(1) unfolding labelsFromEvents_def by auto
  have tr: "currentTransit s \<noteq> None \<Longrightarrow> \<exists>e'\<in>set evs. L (ev_timestamp e') = L (the (currentTransit s))"
    using assms(1) unfolding labelsFromEvents_def by auto
  show ?thesis
    using assms(1) here here' fl tr
    unfolding labelsFromEvents_def phaseStep_cases
    by (simp (no_asm_use)) blast
qed

lemma scanEvents_labelsFromEvents:
  "labelsFromEvents L evs s \<Longrightarrow> set es \<subseteq> set evs \<Longrightarrow> labelsFromEvents L evs (scanEvents L s es)"
  by (induction es arbitrary: s)
    (simp_all add: scanEvents_Nil scanEvents_Cons phaseStep_labelsFromEvents)

lemma derivedAreas_labels_resolve:
  assumes "area \<in> set (derivedAreas L evs)"
  shows "\<exists>s e. findByLabel L evs (x1 area) = Some s \<and> findByLabel L evs (x2 area) = Some e"
proof -
  have "labelsFromEvents L evs initialPhaseState"
    by (simp add: labelsFromEvents_def initialPhaseState_def)
  then have "labelsFromEvents L evs (scanEvents L initialPhaseState (sortedEvents evs))"
    by (rule scanEvents_labelsFromEvents) (simp add: set_sortedEvents)
  with assms have "(\<exists>e\<in>set evs. L (ev_timestamp e) = x1 area)
      \<and> (\<exists>e\<in>set evs. L (ev_timestamp e) = x2 area)"
    by (simp add: labelsFromEvents_def derivedAreas_def)
  then have "findByLabel L evs (x1 area) \<noteq> None \<and> findByLabel L evs (x2 area) \<noteq> None"
    by (auto simp add: findByLabel_def find_None_iff)
  then show ?thesis by auto
qed

lemma numberToString_1: "numberToString (Suc 0) = ''1''"
  by code_simp

lemma numberToString_2: "numberToString (Suc (Suc 0)) = ''2''"
  by code_simp

lemma longHaul_labels:
  "timeToLabel24 0 1704096000000 = ''08:00''"
  "timeToLabel24 0 1704103200000 = ''10:00''"
  "timeToLabel24 0 1704182400000 = ''08:00''"
  by code_simp+

lemma longHaul_kinds:
  "\<not> isTakeoff (flightEvent ''Arrive at Airport'' 1704096000000)"
  "\<not> isLanding (flightEvent ''Arrive at Airport'' 1704096000000)"
  "\<not> isTransitStart (flightEvent ''Arrive at Airport'' 1704096000000)"
  "\<not> isTransitEnd (flightEvent ''Arrive at Airport'' 1704096000000)"
  "isTakeoff (flightEvent ''Takeoff (Leg 1)'' 1704103200000)"
  "isLanding (flightEvent ''Landing (Leg 1)'' 1704182400000)"
  by code_simp+

lemma longHaul_derivedAreas:
  "derivedAreas (timeToLabel24 0) longHaulEvents
     = [\<lparr>x1 = ''10:00'', x2 = ''08:00'', label = ''In Flight 1'', fill = flightFill\<rparr>]"
proof -
  have "sorted (map ev_timestamp longHaulEvents)"
    by (simp add: longHaulEvents_def flightEvent_def)
  then have "sortedEvents longHaulEvents = longHaulEvents"
    unfolding sortedEvents_def by (rule sort_by_sorted)
  then have "derivedAreas (timeToLabel24 0) longHaulEvents
      = areas (scanEvents (timeToLabel24 0) initialPhaseState longHaulEvents)"
    by (simp add: derivedAreas_def)
  also have "\<dots> = [\<lparr>x1 = ''10:00'', x2 = ''08:00'', label = ''In Flight 1'', fill = flightFill\<rparr>]"
    unfolding longHaulEvents_def
    by (simp add: scanEvents_Cons scanEvents_Nil phaseStep_cases longHaul_kinds
        initialPhaseState_def numberToString_1)
      (simp add: flightEvent_def longHaul_labels)
  finally show ?thesis .
qed

lemma longHaul_findByLabel:
  "findByLabel (timeToLabel24 0) longHaulEvents ''10:00''
     = Some (flightEvent ''Takeoff (Leg 1)'' 1704103200000)"
  "findByLabel (timeToLabel24 0) longHaulEvents ''08:00''
     = Some (flightEvent ''Arrive at Airport'' 1704096000000)"
  by (simp_all add: findByLabel_def longHaulEvents_def flightEvent_def longHaul_labels)





















lemma set_insert_by: "set (insert_by cmp x xs) = insert x (set xs)"
  by (induction xs) auto

lemma set_sort_by: "set (sort_by cmp xs) = set xs"
  by (induction xs) (simp_all add: sort_by_def set_insert_by)

lemma insert_by_cong_key:
  fixes f :: "'a \<Rightarrow> int"
  assumes "\<forall>y\<in>set xs. cmp x y = f x - f y"
  shows "insert_by cmp x xs = insort_key f x xs"
  using assms by (induction xs) simp_all

lemma sort_by_cong_key:
  fixes f :: "'a \<Rightarrow> int"
  assumes "\<forall>x\<in>set xs. \<forall>y\<in>set xs. cmp x y = f x - f y"
  shows "sort_by cmp xs = sort_key f xs"
  using assms
proof (induction xs)
  case Nil
  show ?case by (simp add: sort_by_def)
next
  case (Cons x xs)
  then have ih: "sort_by cmp xs = sort_key f xs" by simp
  have "\<forall>y\<in>set (sort_key f xs). cmp x y = f x - f y"
    using Cons.prems by simp
  then have "insert_by cmp x (sort_key f xs) = insort_key f x (sort_key f xs)"
    by (rule insert_by_cong_key)
  with ih show ?case by (simp add: sort_by_def)
qed

lemma pushPoints_append:
  "pushPoints ty points healthData =
     (fst (pushPoints ty points []), healthData @ snd (pushPoints ty points []))"
proof (induction points arbitrary: healthData)
  case Nil
  show ?case by simp
next
  case (Cons point rest)
  note ih = Cons.IH
  show ?case
  proof (cases "get_prop point ''end_time''")
    case (Inl err)
    then show ?thesis by simp
  next
    case (Inr t)
    show ?thesis
    proof (cases "if ty = ''stress'' then get_prop point ''score'' else Inr None")
      case (Inl err)
      with Inr show ?thesis by simp
    next
      case v: (Inr v)
      show ?thesis
      proof (cases "v = None \<or> t = None")
        case True
        with Inr v show ?thesis
          using ih [of healthData] by (auto split: option.splits)
      next
        case False
        then obtain v' t' where "v = Some v'" "t = Some t'" by auto
        with Inr v show ?thesis
          using ih [of "healthData @ [\<lparr>timestamp = t', val = v', type = ty\<rparr>]"]
            ih [of "[\<lparr>timestamp = t', val = v', type = ty\<rparr>]"]
          by simp
      qed
    qed
  qed
qed

lemma processFile_append:
  "processFile (healthData, warnings) file =
     (healthData @ fileSamples file, warnings @ fileWarnings file)"
proof -
  obtain entry ty where f: "file = (entry, ty)" by (cases "file")
  have p: "pushPoints ty points healthData =
     (fst (pushPoints ty points []), healthData @ snd (pushPoints ty points []))" for points
    by (rule pushPoints_append)
  show ?thesis
    unfolding f fileSamples_def fileWarnings_def processFile_def
    by (auto split: sum.splits prod.splits option.splits simp add: p [of _])
qed

lemma foldl_processFile:
  "foldl processFile (healthData, warnings) files =
     (healthData @ concat (map fileSamples files), warnings @ concat (map fileWarnings files))"
  by (induction files arbitrary: healthData warnings) (simp_all add: processFile_append)

lemma malformed_contributes:
  assumes "malformed file"
  shows "fileSamples file = []" and "fileWarnings file = [name (fst file)]"
  using assms
  by (cases "file"; simp add: malformed_def fileSamples_def fileWarnings_def processFile_def
      split: sum.splits)+

lemma parseSamsungHealthZip_eq:
  "parseSamsungHealthZip conv archive =
     (sort_by (compareTimestamps conv)
        (concat (map fileSamples (take MAX_FILES_TO_PROCESS (filesToProcess archive)))),
      concat (map fileWarnings (take MAX_FILES_TO_PROCESS (filesToProcess archive))))"
  by (simp add: parseSamsungHealthZip_def foldl_processFile)

lemma pushPoints_characters:
  "pushPoints ty (map (\<lambda>c. JStr [c]) str) healthData = (None, healthData)"
  by (induction str) auto

lemma concat_fileSamples_well_formed:
  "concat (map fileSamples files) = concat (map fileSamples (filter (\<lambda>f. \<not> malformed f) files))"
  by (induction files) (simp_all add: malformed_contributes)

lemma stressPath_qualifies:
  "endsWith (stressPath f) ''.binning_data.json''"
  "str_includes (stressPath f) ''com.samsung.shealth.stress''"
proof -
  show "endsWith (stressPath f) ''.binning_data.json''"
    unfolding endsWith_def stressPath_def suffix_def
    by (rule exI [of _ "''com.samsung.shealth.stress/'' @ f"]) simp
  show "str_includes (stressPath f) ''com.samsung.shealth.stress''"
    unfolding str_includes_def stressPath_def sublist_def
    by (rule exI [of _ "[]"], rule exI [of _ "''/'' @ f @ ''.binning_data.json''"]) simp
qed

lemma sleep_path_excluded:
  "\<not> str_includes ''com.samsung.shealth.sleep/d.binning_data.json'' ''com.samsung.shealth.stress''"
  by code_simp

lemma exampleArchive_files:
  "take MAX_FILES_TO_PROCESS (filesToProcess exampleArchive) =
     [(\<lparr>name = stressPath ''a'', content = Inr (JArr [stressRecord 85 1700000000000])\<rparr>,
       ''stress''),
      (\<lparr>name = stressPath ''b'', content = Inl SyntaxError\<rparr>, ''stress''),
      (\<lparr>name = stressPath ''c'',
        content = Inr (JObj [(''binning_data'',
                   JArr [stressRecord 40 1600000000000, JObj [(''score'', JNum 3)]])])\<rparr>,
       ''stress'')]"
  by (simp add: filesToProcess_def exampleArchive_def stressPath_qualifies sleep_path_excluded
      MAX_FILES_TO_PROCESS_def)

lemma exampleArchive_fileSamples:
  "fileSamples (\<lparr>name = stressPath ''a'', content = Inr (JArr [stressRecord 85 1700000000000])\<rparr>,
       ''stress'')
     = [\<lparr>timestamp = JNum 1700000000000, val = JNum 85, type = ''stress''\<rparr>]"
  "fileSamples (\<lparr>name = stressPath ''c'',
        content = Inr (JObj [(''binning_data'',
                   JArr [stressRecord 40 1600000000000, JObj [(''score'', JNum 3)]])])\<rparr>,
       ''stress'')
     = [\<lparr>timestamp = JNum 1600000000000, val = JNum 40, type = ''stress''\<rparr>]"
  by (simp_all add: fileSamples_def processFile_def dataPoints_def stressRecord_def)

lemma pushPoints_provenance:
  assumes "s \<in> set (snd (pushPoints ty points healthData))"
  shows "s \<in> set healthData
     \<or> (\<exists>point\<in>set points. get_prop point ''end_time'' = Inr (Some (timestamp s))
           \<and> ty = ''stress'' \<and> get_prop point ''score'' = Inr (Some (val s)) \<and> type s = ty)"
  using assms
proof (induction points arbitrary: healthData)
  case Nil
  then show ?case by simp
next
  case (Cons point rest)
  show ?case
  proof (cases "get_prop point ''end_time''")
    case (Inl err)
    with Cons.prems show ?thesis by simp
  next
    case (Inr t)
    show ?thesis
    proof (cases "if ty = ''stress'' then get_prop point ''score'' else Inr None")
      case (Inl err)
      with Inr Cons.prems show ?thesis by simp
    next
      case v: (Inr v)
      show ?thesis
      proof (cases "v = None \<or> t = None")
        case True
        with Inr v Cons.prems have "s \<in> set (snd (pushPoints ty rest healthData))"
          by (auto split: option.splits)
        from Cons.IH [OF this] show ?thesis by auto
      next
        case False
        then obtain v' t' where vt: "v = Some v'" "t = Some t'" by auto
        with Inr v Cons.prems
        have "s \<in> set (snd (pushPoints ty rest
            (healthData @ [\<lparr>timestamp = t', val = v', type = ty\<rparr>])))"
          by simp
        from Cons.IH [OF this] consider "s \<in> set healthData"
          | "s = \<lparr>timestamp = t', val = v', type = ty\<rparr>"
          | "\<exists>point\<in>set rest. get_prop point ''end_time'' = Inr (Some (timestamp s))
               \<and> ty = ''stress'' \<and> get_prop point ''score'' = Inr (Some (val s)) \<and> type s = ty"
          by auto
        then show ?thesis
        proof cases
          case 1
          then show ?thesis by simp
        next
          case 2
          with Inr v vt show ?thesis
            by (auto split: if_splits)
        next
          case 3
          then show ?thesis by auto
        qed
      qed
    qed
  qed
qed

lemma fileSamples_provenance:
  assumes "s \<in> set (fileSamples (entry, ty))"
  shows "\<exists>data dps points point.
           content entry = Inr data \<and> dataPoints data = Inr dps \<and> iterate dps = Inr points
         \<and> point \<in> set points
         \<and> get_prop point ''end_time'' = Inr (Some (timestamp s))
         \<and> get_prop point ''score'' = Inr (Some (val s)) \<and> type s = ''stress''"
proof -
  from assms obtain data where c: "content entry = Inr data"
    by (cases "content entry") (auto simp add: fileSamples_def processFile_def)
  with assms obtain dps where d: "dataPoints data = Inr dps"
    by (cases "dataPoints data") (auto simp add: fileSamples_def processFile_def)
  with assms c obtain points where i: "iterate dps = Inr points"
    by (cases "iterate dps") (auto simp add: fileSamples_def processFile_def)
  with assms c d have "s \<in> set (snd (pushPoints ty points []))"
    by (auto simp add: fileSamples_def processFile_def split: prod.splits option.splits)
  from pushPoints_provenance [OF this] c d i show ?thesis
    by auto
qed

lemma pushPoints_missing_field:
  assumes "get_prop point ''end_time'' = Inr None \<or> get_prop point ''score'' = Inr None"
  shows "pushPoints ''stress'' (point # rest) healthData = pushPoints ''stress'' rest healthData"
  using assms by (cases point) (auto split: option.splits)

lemma numeric_compareTimestamps:
  assumes "isNumber (timestamp a)" "isNumber (timestamp b)"
  shows "compareTimestamps conv a b = numericKey a - numericKey b"
    and "timestampLe a b \<longleftrightarrow> numericKey a \<le> numericKey b"
  using assms
  by (auto simp add: isNumber_def compareTimestamps_def ToNumber_def numericKey_def
      timestampLe_def split: json.splits)

lemma numeric_sort_by_sorted:
  assumes "\<forall>s\<in>set xs. isNumber (timestamp s)"
  shows "sorted_wrt timestampLe (sort_by (compareTimestamps conv) xs)"
proof -
  have "sort_by (compareTimestamps conv) xs = sort_key numericKey xs"
    using assms by (intro sort_by_cong_key) (simp add: numeric_compareTimestamps)
  moreover have "sorted_wrt (\<lambda>a b. numericKey a \<le> numericKey b) (sort_key numericKey xs)"
    using sorted_sort_key [of numericKey xs] by (simp add: sorted_map)
  moreover have "\<forall>a\<in>set (sort_key numericKey xs). \<forall>b\<in>set (sort_key numericKey xs).
      numericKey a \<le> numericKey b \<longrightarrow> timestampLe a b"
    using assms by (simp add: numeric_compareTimestamps)
  ultimately show ?thesis
    by (auto intro: sorted_wrt_mono_rel [where P = "\<lambda>a b. numericKey a \<le> numericKey b"])
qed

lemma exampleArchive_output:
  "fst (parseSamsungHealthZip unusedConv exampleArchive)
     = [\<lparr>timestamp = JNum 1600000000000, val = JNum 40, type = ''stress''\<rparr>,
        \<lparr>timestamp = JNum 1700000000000, val = JNum 85, type = ''stress''\<rparr>]"
  by (simp add: parseSamsungHealthZip_eq exampleArchive_files exampleArchive_fileSamples
      malformed_contributes malformed_def sort_by_def compareTimestamps_def ToNumber_def)

lemma textScoreArchive_output:
  "fst (parseSamsungHealthZip unusedConv textScoreArchive)
     = [\<lparr>timestamp = JNum 1700000000000, val = JStr ''high'', type = ''stress''\<rparr>]"
  by (simp add: parseSamsungHealthZip_eq textScoreArchive_def filesToProcess_def
      stressPath_qualifies MAX_FILES_TO_PROCESS_def fileSamples_def processFile_def
      dataPoints_def sort_by_def)




section \<open>Claims\<close>

subsection \<open>C1\<close>

text \<open>
  C1. For every sample sequence and every non-empty event list the correlation filter returns
  exactly the samples with dayStart \<le> timestamp \<le> dayEnd, kind stress and value \<ge> 80, each
  as a (timestamp, value) pair, in input order; no returned pair has a value below 80 or a
  timestamp outside the travel window.
\<close>

theorem highStressPeriods_contract:
  assumes "events \<noteq> []"
  shows "\<exists>dayStart dayEnd.
           travelWindow z events = Some (dayStart, dayEnd)
         \<and> highStressPeriods z healthData events =
             map (\<lambda>d. (timestamp d, val d))
               (filter (\<lambda>d. dayStart \<le> timestamp d \<and> timestamp d \<le> dayEnd
                          \<and> type d = ''stress'' \<and> 80 \<le> val d) healthData)
         \<and> (\<forall>(t, v) \<in> set (highStressPeriods z healthData events).
               \<not> v < 80 \<and> dayStart \<le> t \<and> t \<le> dayEnd)"
proof -
  from assms obtain e es where ev: "events = e # es" by (cases events) auto
  obtain ds de where tw: "travelWindow z events = Some (ds, de)"
    by (auto simp add: travelWindow_def ev)
  have eq: "highStressPeriods z healthData events =
             map (\<lambda>d. (timestamp d, val d))
               (filter (\<lambda>d. ds \<le> timestamp d \<and> timestamp d \<le> de
                          \<and> type d = ''stress'' \<and> 80 \<le> val d) healthData)"
    by (simp add: highStressPeriods_def tw STRESS_THRESHOLD_def conj_commute conj_left_commute)
  have "\<forall>(t, v) \<in> set (highStressPeriods z healthData events).
               \<not> v < 80 \<and> ds \<le> t \<and> t \<le> de"
    unfolding eq by auto
  with tw eq show ?thesis by blast
qed

theorem highStressPeriods_contract_witness:
  "dayEvents \<noteq> []
   \<and> travelWindow utcZone dayEvents = Some (1704067200000, 1704153599999)
   \<and> highStressPeriods utcZone daySamples dayEvents = [(1704110400000, 90)]"
proof -
  have ne: "dayEvents \<noteq> []"
    by (simp add: dayEvents_def)
  have tw: "travelWindow utcZone dayEvents = Some (1704067200000, 1704153599999)"
    by (simp add: travelWindow_def dayEvents_def flightEvent_def setHours_def UTC_def
        possibleInstants_def LocalTime_def offsetAt_def utcZone_def Day_def MakeTime_def
        msPerDay_def)
  from highStressPeriods_contract [OF ne, of utcZone daySamples] tw ne
  show ?thesis by (simp add: daySamples_def stressSample_def)
qed

subsection \<open>C2\<close>




subsection \<open>C3\<close>

text \<open>
  C3 (as amended). Every sample in the reader's output comes from a record of a processed
  member in which both \<open>end_time\<close> and \<open>score\<close> are present, and carries their values as they
  are; a record in which either field is missing is dropped, and a record in which both are
  present is kept whatever values they hold. When every timestamp in the output is a number,
  the output is sorted non-decreasing by timestamp.
\<close>

theorem extracted_samples_present_and_sorted:
  "(\<forall>s\<in>set (fst (parseSamsungHealthZip conv archive)).
      \<exists>f\<in>set (take MAX_FILES_TO_PROCESS (filesToProcess archive)).
      \<exists>data dps points point.
           content (fst f) = Inr data \<and> dataPoints data = Inr dps \<and> iterate dps = Inr points
         \<and> point \<in> set points
         \<and> get_prop point ''end_time'' = Inr (Some (timestamp s))
         \<and> get_prop point ''score'' = Inr (Some (val s)) \<and> type s = ''stress'')
   \<and> (get_prop point ''end_time'' = Inr None \<or> get_prop point ''score'' = Inr None \<longrightarrow>
        pushPoints ''stress'' (point # rest) healthData = pushPoints ''stress'' rest healthData)
   \<and> ((\<forall>s\<in>set (fst (parseSamsungHealthZip conv archive)). isNumber (timestamp s)) \<longrightarrow>
        sorted_wrt timestampLe (fst (parseSamsungHealthZip conv archive)))
   \<and> (get_prop point ''end_time'' = Inr (Some t) \<and> get_prop point ''score'' = Inr (Some v) \<longrightarrow>
        pushPoints ''stress'' (point # rest) healthData
          = pushPoints ''stress'' rest
              (healthData @ [\<lparr>timestamp = t, val = v, type = ''stress''\<rparr>]))"
proof -
  let ?files = "take MAX_FILES_TO_PROCESS (filesToProcess archive)"
  have a: "\<forall>s\<in>set (fst (parseSamsungHealthZip conv archive)).
      \<exists>f\<in>set ?files. \<exists>data dps points point.
           content (fst f) = Inr data \<and> dataPoints data = Inr dps \<and> iterate dps = Inr points
         \<and> point \<in> set points
         \<and> get_prop point ''end_time'' = Inr (Some (timestamp s))
         \<and> get_prop point ''score'' = Inr (Some (val s)) \<and> type s = ''stress''"
  proof
    fix s assume "s \<in> set (fst (parseSamsungHealthZip conv archive))"
    then obtain f where f: "f \<in> set ?files" and s: "s \<in> set (fileSamples f)"
      by (auto simp add: parseSamsungHealthZip_eq set_sort_by)
    obtain entry ty where e: "f = (entry, ty)" by (cases f)
    from fileSamples_provenance [of s entry ty] s e
    have "\<exists>data dps points point.
           content (fst f) = Inr data \<and> dataPoints data = Inr dps \<and> iterate dps = Inr points
         \<and> point \<in> set points
         \<and> get_prop point ''end_time'' = Inr (Some (timestamp s))
         \<and> get_prop point ''score'' = Inr (Some (val s)) \<and> type s = ''stress''"
      by simp
    with f show "\<exists>f\<in>set ?files. \<exists>data dps points point.
           content (fst f) = Inr data \<and> dataPoints data = Inr dps \<and> iterate dps = Inr points
         \<and> point \<in> set points
         \<and> get_prop point ''end_time'' = Inr (Some (timestamp s))
         \<and> get_prop point ''score'' = Inr (Some (val s)) \<and> type s = ''stress''"
      by blast
  qed
  have b: "get_prop point ''end_time'' = Inr None \<or> get_prop point ''score'' = Inr None \<longrightarrow>
        pushPoints ''stress'' (point # rest) healthData = pushPoints ''stress'' rest healthData"
    using pushPoints_missing_field by blast
  have c: "(\<forall>s\<in>set (fst (parseSamsungHealthZip conv archive)). isNumber (timestamp s)) \<longrightarrow>
        sorted_wrt timestampLe (fst (parseSamsungHealthZip conv archive))"
  proof
    assume "\<forall>s\<in>set (fst (parseSamsungHealthZip conv archive)). isNumber (timestamp s)"
    then have "\<forall>s\<in>set (concat (map fileSamples ?files)). isNumber (timestamp s)"
      by (simp add: parseSamsungHealthZip_eq set_sort_by)
    then have "sorted_wrt timestampLe
        (sort_by (compareTimestamps conv) (concat (map fileSamples ?files)))"
      by (rule numeric_sort_by_sorted)
    then show "sorted_wrt timestampLe (fst (parseSamsungHealthZip conv archive))"
      by (simp add: parseSamsungHealthZip_eq)
  qed
  have d: "get_prop point ''end_time'' = Inr (Some t) \<and> get_prop point ''score'' = Inr (Some v) \<longrightarrow>
        pushPoints ''stress'' (point # rest) healthData
          = pushPoints ''stress'' rest
              (healthData @ [\<lparr>timestamp = t, val = v, type = ''stress''\<rparr>])"
    by simp
  from a b c d show ?thesis by blast
qed

theorem extracted_samples_present_and_sorted_witness:
  "list_all (\<lambda>s. isNumber (timestamp s)) (fst (parseSamsungHealthZip unusedConv exampleArchive))
   \<and> sorted_wrt timestampLe (fst (parseSamsungHealthZip unusedConv exampleArchive))
   \<and> get_prop (JObj [(''score'', JNum 3)]) ''end_time'' = Inr None
   \<and> pushPoints ''stress'' [JObj [(''score'', JNum 3)]] [] = (None, [])"
proof -
  note th = extracted_samples_present_and_sorted [where conv = unusedConv
      and archive = exampleArchive and point = "JObj [(''score'', JNum 3)]" and rest = "[]"
      and healthData = "[]"]
  have n: "\<forall>s\<in>set (fst (parseSamsungHealthZip unusedConv exampleArchive)). isNumber (timestamp s)"
    by (simp add: exampleArchive_output isNumber_def)
  with th have s: "sorted_wrt timestampLe (fst (parseSamsungHealthZip unusedConv exampleArchive))"
    by blast
  have g: "get_prop (JObj [(''score'', JNum 3)]) ''end_time'' = Inr None"
    by simp
  with th have "pushPoints ''stress'' [JObj [(''score'', JNum 3)]] []
      = pushPoints ''stress'' [] []"
    by blast
  then have p: "pushPoints ''stress'' [JObj [(''score'', JNum 3)]] [] = (None, [])"
    by simp
  from n s g p show ?thesis by (simp add: list_all_iff)
qed

text \<open>
  C3 (as stated) fails: a record whose score is a text is kept, and the output then holds a
  sample whose value is not a number.
\<close>

theorem extracted_sample_with_text_score:
  "fst (parseSamsungHealthZip unusedConv textScoreArchive)
     = [\<lparr>timestamp = JNum 1700000000000, val = JStr ''high'', type = ''stress''\<rparr>]
   \<and> \<not> isNumber (val \<lparr>timestamp = JNum 1700000000000, val = JStr ''high'', type = ''stress''\<rparr>)"
  by (simp add: textScoreArchive_output isNumber_def)

subsection \<open>C4\<close>

text \<open>
  C4. For the events Takeoff at T1, Landing at T2, Transit Start at T2, Transit End at T3,
  Takeoff at T3, Landing at T4, in that order and with T1 \<le> T2 \<le> T3 \<le> T4, the derivation
  emits exactly three areas: a flight area from T1 to T2 numbered 1, a transit area from T2 to
  T3, and a flight area from T3 to T4 numbered 2. A step opens a flight only on a name that
  contains "takeoff" in any letter case while no flight is open, closes one only on a name
  that contains "landing" while a flight is open, and likewise with "transit start" and
  "transit end" for the transit.
\<close>

theorem derivedAreas_two_legs:
  assumes order: "T1 \<le> T2" "T2 \<le> T3" "T3 \<le> T4"
    and e1: "e1 = \<lparr>event = n1, ev_timestamp = T1, details = d1\<rparr>" "isTakeoff e1"
    and e2: "e2 = \<lparr>event = n2, ev_timestamp = T2, details = d2\<rparr>" "isLanding e2"
    and e3: "e3 = \<lparr>event = n3, ev_timestamp = T2, details = d3\<rparr>" "isTransitStart e3"
            "\<not> isTakeoff e3"
    and e4: "e4 = \<lparr>event = n4, ev_timestamp = T3, details = d4\<rparr>" "isTransitEnd e4"
            "\<not> isTakeoff e4"
    and e5: "e5 = \<lparr>event = n5, ev_timestamp = T3, details = d5\<rparr>" "isTakeoff e5"
    and e6: "e6 = \<lparr>event = n6, ev_timestamp = T4, details = d6\<rparr>" "isLanding e6"
  shows "derivedAreas timeToLabel [e1, e2, e3, e4, e5, e6] =
           [\<lparr>x1 = timeToLabel T1, x2 = timeToLabel T2, label = ''In Flight 1'',
             fill = flightFill\<rparr>,
            \<lparr>x1 = timeToLabel T2, x2 = timeToLabel T3, label = ''Transit'',
             fill = transitFill\<rparr>,
            \<lparr>x1 = timeToLabel T3, x2 = timeToLabel T4, label = ''In Flight 2'',
             fill = flightFill\<rparr>]
         \<and> (currentFlight s = None \<and> currentFlight (phaseStep timeToLabel s e) \<noteq> None
              \<longrightarrow> isTakeoff e)
         \<and> (isTakeoff e \<and> currentFlight s = None
              \<longrightarrow> phaseStep timeToLabel s e = s\<lparr>currentFlight := Some (ev_timestamp e)\<rparr>)
         \<and> (flightCount (phaseStep timeToLabel s e) \<noteq> flightCount s
              \<longrightarrow> isLanding e \<and> currentFlight s \<noteq> None)
         \<and> (currentTransit s = None \<and> currentTransit (phaseStep timeToLabel s e) \<noteq> None
              \<longrightarrow> isTransitStart e)
         \<and> (areas (phaseStep timeToLabel s e) \<noteq> areas s
                \<and> flightCount (phaseStep timeToLabel s e) = flightCount s
              \<longrightarrow> isTransitEnd e \<and> currentTransit s \<noteq> None)"
proof -
  let ?es = "[e1, e2, e3, e4, e5, e6]"
  have "sorted (map ev_timestamp ?es)"
    using order by (simp add: e1(1) e2(1) e3(1) e4(1) e5(1) e6(1))
  then have srt: "sortedEvents ?es = ?es"
    unfolding sortedEvents_def by (rule sort_by_sorted)
  have ts: "ev_timestamp e1 = T1" "ev_timestamp e2 = T2" "ev_timestamp e3 = T2"
    "ev_timestamp e4 = T3" "ev_timestamp e5 = T3" "ev_timestamp e6 = T4"
    by (simp_all add: e1(1) e2(1) e3(1) e4(1) e5(1) e6(1))
  have one: "numberToString (Suc 0) = ''1''" and two: "numberToString (Suc (Suc 0)) = ''2''"
    by code_simp+
  define s1 where "s1 = phaseStep timeToLabel initialPhaseState e1"
  define s2 where "s2 = phaseStep timeToLabel s1 e2"
  define s3 where "s3 = phaseStep timeToLabel s2 e3"
  define s4 where "s4 = phaseStep timeToLabel s3 e4"
  define s5 where "s5 = phaseStep timeToLabel s4 e5"
  define s6 where "s6 = phaseStep timeToLabel s5 e6"
  have r1: "s1 = \<lparr>currentFlight = Some T1, currentTransit = None, flightCount = 0, areas = []\<rparr>"
    unfolding s1_def by (simp add: phaseStep_cases initialPhaseState_def e1(2) ts)
  have r2: "s2 = \<lparr>currentFlight = None, currentTransit = None, flightCount = 1,
      areas = [\<lparr>x1 = timeToLabel T1, x2 = timeToLabel T2, label = ''In Flight 1'',
                fill = flightFill\<rparr>]\<rparr>"
    unfolding s2_def r1 by (simp add: phaseStep_cases e2(2) ts one)
  have r3: "s3 = \<lparr>currentFlight = None, currentTransit = Some T2, flightCount = 1,
      areas = [\<lparr>x1 = timeToLabel T1, x2 = timeToLabel T2, label = ''In Flight 1'',
                fill = flightFill\<rparr>]\<rparr>"
    unfolding s3_def r2 by (simp add: phaseStep_cases e3(2,3) ts)
  have r4: "s4 = \<lparr>currentFlight = None, currentTransit = None, flightCount = 1,
      areas = [\<lparr>x1 = timeToLabel T1, x2 = timeToLabel T2, label = ''In Flight 1'',
                fill = flightFill\<rparr>,
               \<lparr>x1 = timeToLabel T2, x2 = timeToLabel T3, label = ''Transit'',
                fill = transitFill\<rparr>]\<rparr>"
    unfolding s4_def r3 by (simp add: phaseStep_cases e4(2,3) ts)
  have r5: "s5 = \<lparr>currentFlight = Some T3, currentTransit = None, flightCount = 1,
      areas = [\<lparr>x1 = timeToLabel T1, x2 = timeToLabel T2, label = ''In Flight 1'',
                fill = flightFill\<rparr>,
               \<lparr>x1 = timeToLabel T2, x2 = timeToLabel T3, label = ''Transit'',
                fill = transitFill\<rparr>]\<rparr>"
    unfolding s5_def r4 by (simp add: phaseStep_cases e5(2) ts)
  have r6: "areas s6 =
      [\<lparr>x1 = timeToLabel T1, x2 = timeToLabel T2, label = ''In Flight 1'', fill = flightFill\<rparr>,
       \<lparr>x1 = timeToLabel T2, x2 = timeToLabel T3, label = ''Transit'', fill = transitFill\<rparr>,
       \<lparr>x1 = timeToLabel T3, x2 = timeToLabel T4, label = ''In Flight 2'', fill = flightFill\<rparr>]"
    unfolding s6_def r5 by (simp add: phaseStep_cases e6(2) ts two)
  have "derivedAreas timeToLabel ?es = areas s6"
    by (simp add: derivedAreas_def srt scanEvents_Cons scanEvents_Nil
        s1_def s2_def s3_def s4_def s5_def s6_def)
  with r6 have main: "derivedAreas timeToLabel ?es =
      [\<lparr>x1 = timeToLabel T1, x2 = timeToLabel T2, label = ''In Flight 1'', fill = flightFill\<rparr>,
       \<lparr>x1 = timeToLabel T2, x2 = timeToLabel T3, label = ''Transit'', fill = transitFill\<rparr>,
       \<lparr>x1 = timeToLabel T3, x2 = timeToLabel T4, label = ''In Flight 2'', fill = flightFill\<rparr>]"
    by simp
  have p1: "currentFlight s = None \<and> currentFlight (phaseStep timeToLabel s e) \<noteq> None
              \<longrightarrow> isTakeoff e"
    by (auto simp add: phaseStep_cases)
  have p2: "isTakeoff e \<and> currentFlight s = None
              \<longrightarrow> phaseStep timeToLabel s e = s\<lparr>currentFlight := Some (ev_timestamp e)\<rparr>"
    by (auto simp add: phaseStep_cases)
  have p3: "flightCount (phaseStep timeToLabel s e) \<noteq> flightCount s
              \<longrightarrow> isLanding e \<and> currentFlight s \<noteq> None"
    by (auto simp add: phaseStep_cases)
  have p4: "currentTransit s = None \<and> currentTransit (phaseStep timeToLabel s e) \<noteq> None
              \<longrightarrow> isTransitStart e"
    by (auto simp add: phaseStep_cases)
  have p5: "areas (phaseStep timeToLabel s e) \<noteq> areas s
                \<and> flightCount (phaseStep timeToLabel s e) = flightCount s
              \<longrightarrow> isTransitEnd e \<and> currentTransit s \<noteq> None"
    by (auto simp add: phaseStep_cases)
  from main p1 p2 p3 p4 p5 show ?thesis by blast
qed

theorem derivedAreas_two_legs_witness:
  "derivedAreas (timeToLabel24 0) twoLegEvents =
     [\<lparr>x1 = ''10:00'', x2 = ''14:00'', label = ''In Flight 1'', fill = flightFill\<rparr>,
      \<lparr>x1 = ''14:00'', x2 = ''16:00'', label = ''Transit'', fill = transitFill\<rparr>,
      \<lparr>x1 = ''16:00'', x2 = ''19:00'', label = ''In Flight 2'', fill = flightFill\<rparr>]
   \<and> phaseStep (timeToLabel24 0) initialPhaseState (flightEvent ''Takeoff (Leg 1)'' 1704103200000)
       = initialPhaseState\<lparr>currentFlight := Some 1704103200000\<rparr>"
proof -
  have k1: "isTakeoff (flightEvent ''Takeoff (Leg 1)'' 1704103200000)" by code_simp
  have k2: "isLanding (flightEvent ''Landing (Leg 1)'' 1704117600000)" by code_simp
  have k3: "isTransitStart (flightEvent ''Transit Start'' 1704117600000)" by code_simp
  have n3: "\<not> isTakeoff (flightEvent ''Transit Start'' 1704117600000)" by code_simp
  have k4: "isTransitEnd (flightEvent ''Transit End'' 1704124800000)" by code_simp
  have n4: "\<not> isTakeoff (flightEvent ''Transit End'' 1704124800000)" by code_simp
  have k5: "isTakeoff (flightEvent ''Takeoff (Leg 2)'' 1704124800000)" by code_simp
  have k6: "isLanding (flightEvent ''Landing (Leg 2)'' 1704135600000)" by code_simp
  have l1: "timeToLabel24 0 1704103200000 = ''10:00''" by code_simp
  have l2: "timeToLabel24 0 1704117600000 = ''14:00''" by code_simp
  have l3: "timeToLabel24 0 1704124800000 = ''16:00''" by code_simp
  have l4: "timeToLabel24 0 1704135600000 = ''19:00''" by code_simp
  have ord: "(1704103200000::int) \<le> 1704117600000" "(1704117600000::int) \<le> 1704124800000"
    "(1704124800000::int) \<le> 1704135600000"
    by simp_all
  have none: "currentFlight initialPhaseState = None"
    by (simp add: initialPhaseState_def)
  from derivedAreas_two_legs [OF ord flightEvent_def k1 flightEvent_def k2 flightEvent_def k3 n3
      flightEvent_def k4 n4 flightEvent_def k5 flightEvent_def k6,
      of "timeToLabel24 0" initialPhaseState "flightEvent ''Takeoff (Leg 1)'' 1704103200000"]
    k1 none
  show ?thesis
    by (simp add: twoLegEvents_def l1 l2 l3 l4 flightEvent_def)
qed

subsection \<open>C5\<close>




subsection \<open>C6\<close>

text \<open>
  C6 (as amended). The record container is the parsed value itself when that is an array;
  otherwise it is the \<open>data\<close> field when that is present and truthy, else the
  \<open>binning_data\<close> field when that is present and truthy, else an empty array. The choice goes
  by truthiness, not by being an array: when each of the two fields is missing, falsy or an
  array, the records iterated are those of the first field that is an array (none if neither
  is), and a number, string or boolean document contributes no records. A chosen value that
  is not an array adds no sample: a string is iterated by its characters, which have no
  fields, and any other value cannot be iterated, so the member is skipped with a warning.
\<close>

theorem dataPoints_first_truthy:
  "(dataPoints (JArr xs) = Inr (JArr xs) \<and> iterate (JArr xs) = Inr xs)
   \<and> (map_of kvs ''data'' = Some d \<and> truthy d \<longrightarrow> dataPoints (JObj kvs) = Inr d)
   \<and> (falsyOrMissing (map_of kvs ''data'') \<and> map_of kvs ''binning_data'' = Some b \<and> truthy b
        \<longrightarrow> dataPoints (JObj kvs) = Inr b)
   \<and> (falsyOrMissing (map_of kvs ''data'') \<and> falsyOrMissing (map_of kvs ''binning_data'')
        \<longrightarrow> dataPoints (JObj kvs) = Inr (JArr []))
   \<and> (arrayOrFalsy (map_of kvs ''data'') \<and> arrayOrFalsy (map_of kvs ''binning_data'')
        \<longrightarrow> (\<exists>dps. dataPoints (JObj kvs) = Inr dps
                  \<and> iterate dps = Inr (specContainer (JObj kvs))))
   \<and> (data = JNum n \<or> data = JStr s \<or> data = JBool t \<longrightarrow> dataPoints data = Inr (JArr []))
   \<and> dataPoints JNull = Inl TypeError
   \<and> (content entry = Inr doc \<and> dataPoints doc = Inr chosen \<and> \<not> isArray chosen \<longrightarrow>
        fst (processFile (healthData, warnings) (entry, ty)) = healthData)
   \<and> (content entry = Inr doc \<and> dataPoints doc = Inr chosen \<and> \<not> isArray chosen
        \<and> (\<forall>str. chosen \<noteq> JStr str) \<longrightarrow>
        iterate chosen = Inl TypeError
        \<and> processFile (healthData, warnings) (entry, ty) = (healthData, warnings @ [name entry]))"
proof -
  have a: "dataPoints (JArr xs) = Inr (JArr xs) \<and> iterate (JArr xs) = Inr xs"
    by (simp add: dataPoints_def)
  have b: "map_of kvs ''data'' = Some d \<and> truthy d \<longrightarrow> dataPoints (JObj kvs) = Inr d"
    by (simp add: dataPoints_def)
  have c: "falsyOrMissing (map_of kvs ''data'') \<and> map_of kvs ''binning_data'' = Some b \<and> truthy b
        \<longrightarrow> dataPoints (JObj kvs) = Inr b"
    by (simp add: dataPoints_def falsyOrMissing_def split: option.splits)
  have d: "falsyOrMissing (map_of kvs ''data'') \<and> falsyOrMissing (map_of kvs ''binning_data'')
        \<longrightarrow> dataPoints (JObj kvs) = Inr (JArr [])"
    by (simp add: dataPoints_def falsyOrMissing_def split: option.splits)
  have arr: "isArray v \<Longrightarrow> \<exists>ys. v = JArr ys" for v
    by (cases v) simp_all
  have e: "arrayOrFalsy (map_of kvs ''data'') \<and> arrayOrFalsy (map_of kvs ''binning_data'')
        \<longrightarrow> (\<exists>dps. dataPoints (JObj kvs) = Inr dps
                  \<and> iterate dps = Inr (specContainer (JObj kvs)))"
  proof
    assume h: "arrayOrFalsy (map_of kvs ''data'') \<and> arrayOrFalsy (map_of kvs ''binning_data'')"
    have na: "\<not> truthy v \<Longrightarrow> \<not> isArray v" for v
      by (cases v) simp_all
    consider (darr) ys where "map_of kvs ''data'' = Some (JArr ys)"
      | (barr) ys where "falsyOrMissing (map_of kvs ''data'')"
          "map_of kvs ''binning_data'' = Some (JArr ys)"
      | (none) "falsyOrMissing (map_of kvs ''data'')"
          "falsyOrMissing (map_of kvs ''binning_data'')"
      using h arr unfolding arrayOrFalsy_def falsyOrMissing_def
      by (auto split: option.splits)
    then show "\<exists>dps. dataPoints (JObj kvs) = Inr dps
                  \<and> iterate dps = Inr (specContainer (JObj kvs))"
    proof cases
      case darr
      then show ?thesis
        by (simp add: dataPoints_def specContainer_def)
    next
      case barr
      from barr(1) na have "\<forall>v. map_of kvs ''data'' = Some v \<longrightarrow> \<not> isArray v"
        by (auto simp add: falsyOrMissing_def)
      with barr show ?thesis
        by (auto simp add: dataPoints_def specContainer_def falsyOrMissing_def
            split: option.splits json.splits)
    next
      case none
      from none na have "\<forall>v. map_of kvs ''data'' = Some v \<longrightarrow> \<not> isArray v"
        "\<forall>v. map_of kvs ''binning_data'' = Some v \<longrightarrow> \<not> isArray v"
        by (auto simp add: falsyOrMissing_def)
      with none show ?thesis
        by (auto simp add: dataPoints_def specContainer_def falsyOrMissing_def
            split: option.splits json.splits)
    qed
  qed
  have f: "data = JNum n \<or> data = JStr s \<or> data = JBool t \<longrightarrow> dataPoints data = Inr (JArr [])"
    by (auto simp add: dataPoints_def)
  have g: "dataPoints JNull = Inl TypeError"
    by (simp add: dataPoints_def)
  have h: "content entry = Inr doc \<and> dataPoints doc = Inr chosen \<and> \<not> isArray chosen \<longrightarrow>
        fst (processFile (healthData, warnings) (entry, ty)) = healthData"
    by (cases chosen) (auto simp add: processFile_def pushPoints_characters)
  have i: "content entry = Inr doc \<and> dataPoints doc = Inr chosen \<and> \<not> isArray chosen
        \<and> (\<forall>str. chosen \<noteq> JStr str) \<longrightarrow>
        iterate chosen = Inl TypeError
        \<and> processFile (healthData, warnings) (entry, ty) = (healthData, warnings @ [name entry])"
    by (cases chosen) (auto simp add: processFile_def)
  from a b c d e f g h i show ?thesis by blast
qed

theorem dataPoints_first_truthy_witness:
  "dataPoints (JObj [(''data'', JArr [stressRecord 85 1700000000000])])
     = Inr (JArr [stressRecord 85 1700000000000])
   \<and> dataPoints (JObj [(''data'', JNull), (''binning_data'', JArr [stressRecord 40 1600000000000])])
     = Inr (JArr [stressRecord 40 1600000000000])
   \<and> dataPoints (JObj [(''summary'', JStr ''none'')]) = Inr (JArr [])
   \<and> iterate (JArr [stressRecord 40 1600000000000])
     = Inr (specContainer
              (JObj [(''data'', JNull), (''binning_data'', JArr [stressRecord 40 1600000000000])]))
   \<and> dataPoints (JNum 7) = Inr (JArr [])"
proof -
  let ?r = "stressRecord 85 1700000000000"
  let ?q = "stressRecord 40 1600000000000"
  have a: "dataPoints (JObj [(''data'', JArr [?r])]) = Inr (JArr [?r])"
    using dataPoints_first_truthy [where kvs = "[(''data'', JArr [?r])]" and d = "JArr [?r]"]
    by simp
  have b: "dataPoints (JObj [(''data'', JNull), (''binning_data'', JArr [?q])]) = Inr (JArr [?q])"
    using dataPoints_first_truthy [where kvs = "[(''data'', JNull), (''binning_data'', JArr [?q])]"
        and b = "JArr [?q]"]
    by (simp add: falsyOrMissing_def)
  have c: "dataPoints (JObj [(''summary'', JStr ''none'')]) = Inr (JArr [])"
    using dataPoints_first_truthy [where kvs = "[(''summary'', JStr ''none'')]"]
    by (simp add: falsyOrMissing_def)
  have "\<exists>dps. dataPoints (JObj [(''data'', JNull), (''binning_data'', JArr [?q])]) = Inr dps
      \<and> iterate dps
          = Inr (specContainer (JObj [(''data'', JNull), (''binning_data'', JArr [?q])]))"
    using dataPoints_first_truthy [where kvs = "[(''data'', JNull), (''binning_data'', JArr [?q])]"]
    by (simp add: arrayOrFalsy_def)
  with b have d: "iterate (JArr [?q])
      = Inr (specContainer (JObj [(''data'', JNull), (''binning_data'', JArr [?q])]))"
    by auto
  have e: "dataPoints (JNum 7) = Inr (JArr [])"
    using dataPoints_first_truthy [where data = "JNum 7" and n = 7]
    by simp
  from a b c d e show ?thesis by blast
qed

text \<open>
  C6 (as stated) fails: with a number under \<open>data\<close> and an array under \<open>binning_data\<close> the
  reader chooses the number, which cannot be iterated, so the member yields a warning and
  no sample; the first field that is an array holds one record.
\<close>

theorem dataPoints_truthy_non_array_chosen:
  "dataPoints dataFirstMember = Inr (JNum 5)
   \<and> iterate (JNum 5) = Inl TypeError
   \<and> processFile ([], []) (\<lparr>name = stressPath ''x'', content = Inr dataFirstMember\<rparr>, ''stress'')
       = ([], [stressPath ''x''])
   \<and> specContainer dataFirstMember = [stressRecord 85 1700000000000]"
  by (simp add: dataPoints_def dataFirstMember_def processFile_def specContainer_def)

subsection \<open>C7\<close>

text \<open>
  C7 (as amended). Both labels of a derived area resolve to an event of the list, the first
  one showing that label. The area is kept exactly when the start event so resolved has a
  timestamp at or after the window's start and the end event so resolved has a timestamp at or
  before the window's end. When the resolved start event is not later than the resolved end
  event, both timestamps then lie within the window.
\<close>

theorem referenceAreas_window_filter:
  "(area \<in> set (referenceAreas L evs w) \<longleftrightarrow>
      area \<in> set (derivedAreas L evs)
      \<and> (\<exists>s e. findByLabel L evs (x1 area) = Some s \<and> findByLabel L evs (x2 area) = Some e
               \<and> start w \<le> ev_timestamp s \<and> ev_timestamp e \<le> end' w))
   \<and> (area \<in> set (derivedAreas L evs) \<longrightarrow>
        (\<exists>s e. findByLabel L evs (x1 area) = Some s \<and> findByLabel L evs (x2 area) = Some e
               \<and> L (ev_timestamp s) = x1 area \<and> L (ev_timestamp e) = x2 area))
   \<and> (area \<in> set (referenceAreas L evs w)
        \<and> findByLabel L evs (x1 area) = Some s \<and> findByLabel L evs (x2 area) = Some e
        \<and> ev_timestamp s \<le> ev_timestamp e \<longrightarrow>
        start w \<le> ev_timestamp s \<and> ev_timestamp s \<le> end' w
        \<and> start w \<le> ev_timestamp e \<and> ev_timestamp e \<le> end' w)"
proof -
  have a: "area \<in> set (referenceAreas L evs w) \<longleftrightarrow>
      area \<in> set (derivedAreas L evs)
      \<and> (\<exists>s e. findByLabel L evs (x1 area) = Some s \<and> findByLabel L evs (x2 area) = Some e
               \<and> start w \<le> ev_timestamp s \<and> ev_timestamp e \<le> end' w)"
    by (auto simp add: referenceAreas_def areaVisible_def split: option.splits)
  have b: "area \<in> set (derivedAreas L evs) \<longrightarrow>
        (\<exists>s e. findByLabel L evs (x1 area) = Some s \<and> findByLabel L evs (x2 area) = Some e
               \<and> L (ev_timestamp s) = x1 area \<and> L (ev_timestamp e) = x2 area)"
  proof
    assume "area \<in> set (derivedAreas L evs)"
    then obtain s' e' where r: "findByLabel L evs (x1 area) = Some s'"
        "findByLabel L evs (x2 area) = Some e'"
      using derivedAreas_labels_resolve by blast
    then have "L (ev_timestamp s') = x1 area" "L (ev_timestamp e') = x2 area"
      by (auto simp add: findByLabel_def find_Some_iff)
    with r show "\<exists>s e. findByLabel L evs (x1 area) = Some s \<and> findByLabel L evs (x2 area) = Some e
               \<and> L (ev_timestamp s) = x1 area \<and> L (ev_timestamp e) = x2 area"
      by blast
  qed
  have c: "area \<in> set (referenceAreas L evs w)
        \<and> findByLabel L evs (x1 area) = Some s \<and> findByLabel L evs (x2 area) = Some e
        \<and> ev_timestamp s \<le> ev_timestamp e \<longrightarrow>
        start w \<le> ev_timestamp s \<and> ev_timestamp s \<le> end' w
        \<and> start w \<le> ev_timestamp e \<and> ev_timestamp e \<le> end' w"
    by (auto simp add: referenceAreas_def areaVisible_def)
  from a b c show ?thesis by blast
qed

theorem referenceAreas_window_filter_witness:
  "\<lparr>x1 = ''10:00'', x2 = ''08:00'', label = ''In Flight 1'', fill = flightFill\<rparr>
     \<in> set (derivedAreas (timeToLabel24 0) longHaulEvents)
   \<and> findByLabel (timeToLabel24 0) longHaulEvents ''10:00''
       = Some (flightEvent ''Takeoff (Leg 1)'' 1704103200000)
   \<and> findByLabel (timeToLabel24 0) longHaulEvents ''08:00''
       = Some (flightEvent ''Arrive at Airport'' 1704096000000)
   \<and> start narrowedWindow \<le> 1704103200000 \<and> 1704096000000 \<le> end' narrowedWindow
   \<and> \<lparr>x1 = ''10:00'', x2 = ''08:00'', label = ''In Flight 1'', fill = flightFill\<rparr>
     \<in> set (referenceAreas (timeToLabel24 0) longHaulEvents narrowedWindow)"
proof -
  let ?a = "\<lparr>x1 = ''10:00'', x2 = ''08:00'', label = ''In Flight 1'', fill = flightFill\<rparr>"
  have d: "?a \<in> set (derivedAreas (timeToLabel24 0) longHaulEvents)"
    by (simp add: longHaul_derivedAreas)
  have r1: "findByLabel (timeToLabel24 0) longHaulEvents (x1 ?a)
       = Some (flightEvent ''Takeoff (Leg 1)'' 1704103200000)"
    by (simp add: longHaul_findByLabel)
  have r2: "findByLabel (timeToLabel24 0) longHaulEvents (x2 ?a)
       = Some (flightEvent ''Arrive at Airport'' 1704096000000)"
    by (simp add: longHaul_findByLabel)
  have w: "start narrowedWindow \<le> ev_timestamp (flightEvent ''Takeoff (Leg 1)'' 1704103200000)"
    "ev_timestamp (flightEvent ''Arrive at Airport'' 1704096000000) \<le> end' narrowedWindow"
    by (simp_all add: narrowedWindow_def flightEvent_def)
  have k: "?a \<in> set (referenceAreas (timeToLabel24 0) longHaulEvents narrowedWindow)"
    using referenceAreas_window_filter [of ?a "timeToLabel24 0" longHaulEvents narrowedWindow]
      d r1 r2 w
    by blast
  from d r1 r2 w k show ?thesis
    by (simp add: flightEvent_def)
qed

text \<open>
  C7 (as stated) fails: the landing of the long-haul trip shows 08:00, and the first event with
  that label is the arrival at the airport a day earlier, before the window's start. The area
  is kept although the end event resolved by label is outside the window.
\<close>

theorem referenceAreas_end_event_outside_window:
  "referenceAreas (timeToLabel24 0) longHaulEvents narrowedWindow
     = [\<lparr>x1 = ''10:00'', x2 = ''08:00'', label = ''In Flight 1'', fill = flightFill\<rparr>]
   \<and> findByLabel (timeToLabel24 0) longHaulEvents ''08:00''
       = Some (flightEvent ''Arrive at Airport'' 1704096000000)
   \<and> ev_timestamp (flightEvent ''Arrive at Airport'' 1704096000000) < start narrowedWindow"
  by (simp add: referenceAreas_def areaVisible_def longHaul_derivedAreas longHaul_findByLabel
      narrowedWindow_def flightEvent_def)

subsection \<open>C8\<close>

text \<open>
  C8. Extraction always returns. A member whose text is not valid JSON adds its name to the
  warnings, leaves the samples collected so far untouched, and the loop goes on with the
  members after it; the result is the sorted samples of the members that parse, so every
  sample a processed member contributes is returned.
\<close>

theorem malformed_member_skipped:
  "fst (parseSamsungHealthZip conv archive) =
     sort_by (compareTimestamps conv)
       (concat (map fileSamples
          (filter (\<lambda>f. \<not> malformed f) (take MAX_FILES_TO_PROCESS (filesToProcess archive)))))
   \<and> (\<forall>f\<in>set (take MAX_FILES_TO_PROCESS (filesToProcess archive)).
        malformed f \<longrightarrow> name (fst f) \<in> set (snd (parseSamsungHealthZip conv archive)))
   \<and> (\<forall>f\<in>set (take MAX_FILES_TO_PROCESS (filesToProcess archive)).
        set (fileSamples f) \<subseteq> set (fst (parseSamsungHealthZip conv archive)))
   \<and> (malformed m \<longrightarrow>
        processFile (healthData, warnings) m = (healthData, warnings @ [name (fst m)]))
   \<and> (malformed m \<longrightarrow>
        foldl processFile (healthData, warnings) (pre @ [m] @ post) =
          foldl processFile
            (fst (foldl processFile (healthData, warnings) pre),
             snd (foldl processFile (healthData, warnings) pre) @ [name (fst m)]) post)"
proof -
  let ?files = "take MAX_FILES_TO_PROCESS (filesToProcess archive)"
  have a: "fst (parseSamsungHealthZip conv archive) =
     sort_by (compareTimestamps conv)
       (concat (map fileSamples (filter (\<lambda>f. \<not> malformed f) ?files)))"
    using concat_fileSamples_well_formed [of ?files]
    by (simp add: parseSamsungHealthZip_eq)
  have b: "\<forall>f\<in>set ?files. malformed f \<longrightarrow>
      name (fst f) \<in> set (snd (parseSamsungHealthZip conv archive))"
  proof (intro ballI impI)
    fix f assume f: "f \<in> set ?files" and "malformed f"
    then have "name (fst f) \<in> set (fileWarnings f)"
      by (simp add: malformed_contributes)
    with f have "name (fst f) \<in> set (concat (map fileWarnings ?files))"
      unfolding set_concat by (simp only: set_map) blast
    then show "name (fst f) \<in> set (snd (parseSamsungHealthZip conv archive))"
      by (simp add: parseSamsungHealthZip_eq)
  qed
  have c: "\<forall>f\<in>set ?files. set (fileSamples f) \<subseteq> set (fst (parseSamsungHealthZip conv archive))"
    by (auto simp add: parseSamsungHealthZip_eq set_sort_by)
  have d: "malformed m \<longrightarrow>
        processFile (healthData, warnings) m = (healthData, warnings @ [name (fst m)])"
    by (simp add: processFile_append malformed_contributes)
  have e: "malformed m \<longrightarrow>
        foldl processFile (healthData, warnings) (pre @ [m] @ post) =
          foldl processFile
            (fst (foldl processFile (healthData, warnings) pre),
             snd (foldl processFile (healthData, warnings) pre) @ [name (fst m)]) post"
    by (simp add: foldl_processFile processFile_append malformed_contributes)
  from a b c d e show ?thesis by blast
qed

theorem malformed_member_skipped_witness:
  "(\<lparr>name = stressPath ''b'', content = Inl SyntaxError\<rparr>, ''stress'')
     \<in> set (take MAX_FILES_TO_PROCESS (filesToProcess exampleArchive))
   \<and> malformed (\<lparr>name = stressPath ''b'', content = Inl SyntaxError\<rparr>, ''stress'')
   \<and> stressPath ''b'' \<in> set (snd (parseSamsungHealthZip unusedConv exampleArchive))
   \<and> fst (parseSamsungHealthZip unusedConv exampleArchive)
       = [\<lparr>timestamp = JNum 1600000000000, val = JNum 40, type = ''stress''\<rparr>,
          \<lparr>timestamp = JNum 1700000000000, val = JNum 85, type = ''stress''\<rparr>]"
proof -
  let ?b = "(\<lparr>name = stressPath ''b'', content = Inl SyntaxError\<rparr>, ''stress'')"
  note th = malformed_member_skipped [where conv = unusedConv and archive = exampleArchive]
  have m: "malformed ?b"
    by (simp add: malformed_def)
  have i: "?b \<in> set (take MAX_FILES_TO_PROCESS (filesToProcess exampleArchive))"
    by (simp add: exampleArchive_files)
  have nm: "\<not> malformed (\<lparr>name = n, content = Inr d\<rparr>, ''stress'')" for n d
    by (simp add: malformed_def)
  from th i m have w: "stressPath ''b'' \<in> set (snd (parseSamsungHealthZip unusedConv exampleArchive))"
    by fastforce
  from th have "fst (parseSamsungHealthZip unusedConv exampleArchive) =
     sort_by (compareTimestamps unusedConv)
       (concat (map fileSamples
          (filter (\<lambda>f. \<not> malformed f) (take MAX_FILES_TO_PROCESS (filesToProcess exampleArchive)))))"
    by blast
  then have r: "fst (parseSamsungHealthZip unusedConv exampleArchive)
       = [\<lparr>timestamp = JNum 1600000000000, val = JNum 40, type = ''stress''\<rparr>,
          \<lparr>timestamp = JNum 1700000000000, val = JNum 85, type = ''stress''\<rparr>]"
    by (simp add: exampleArchive_files m nm exampleArchive_fileSamples sort_by_def
        compareTimestamps_def ToNumber_def)
  from i m w r show ?thesis by blast
qed

subsection \<open>C9\<close>

text \<open>
  C9. The derivation is a total function, so it never fails. When a landing event is reached
  while no flight is open, the scan emits no flight area for it and leaves the flight counter
  alone (and emits no area at all unless the same name also closes an open transit); in
  particular a list without any takeoff yields no flight area. A flight that is opened but
  never followed by a landing, and a transit never followed by a transit end, add no area:
  a list without a landing yields no flight area and a list without a transit end yields no
  transit area.
\<close>

theorem unmatched_events_emit_no_area:
  "(currentFlight (scanEvents L initialPhaseState pre) = None \<and> isLanding e \<longrightarrow>
      flightAreas (areas (scanEvents L initialPhaseState (pre @ [e])))
        = flightAreas (areas (scanEvents L initialPhaseState pre))
    \<and> flightCount (scanEvents L initialPhaseState (pre @ [e]))
        = flightCount (scanEvents L initialPhaseState pre)
    \<and> (\<not> isTransitEnd e \<longrightarrow>
         areas (scanEvents L initialPhaseState (pre @ [e]))
           = areas (scanEvents L initialPhaseState pre)))
   \<and> ((\<forall>e\<in>set es. \<not> isTakeoff e) \<longrightarrow> flightAreas (derivedAreas L es) = [])
   \<and> ((\<forall>e\<in>set es. \<not> isLanding e) \<longrightarrow>
        flightAreas (areas (scanEvents L s es)) = flightAreas (areas s))
   \<and> ((\<forall>e\<in>set es. \<not> isTransitEnd e) \<longrightarrow>
        transitAreas (areas (scanEvents L s es)) = transitAreas (areas s))
   \<and> ((\<forall>e\<in>set es. \<not> isLanding e) \<longrightarrow> flightAreas (derivedAreas L es) = [])
   \<and> ((\<forall>e\<in>set es. \<not> isTransitEnd e) \<longrightarrow> transitAreas (derivedAreas L es) = [])"
proof -
  have init: "currentFlight initialPhaseState = None" "areas initialPhaseState = []"
    by (simp_all add: initialPhaseState_def)
  have a: "currentFlight (scanEvents L initialPhaseState pre) = None \<and> isLanding e \<longrightarrow>
      flightAreas (areas (scanEvents L initialPhaseState (pre @ [e])))
        = flightAreas (areas (scanEvents L initialPhaseState pre))
    \<and> flightCount (scanEvents L initialPhaseState (pre @ [e]))
        = flightCount (scanEvents L initialPhaseState pre)
    \<and> (\<not> isTransitEnd e \<longrightarrow>
         areas (scanEvents L initialPhaseState (pre @ [e]))
           = areas (scanEvents L initialPhaseState pre))"
    by (simp add: scanEvents_snoc phaseStep_landing_closed)
  have b: "(\<forall>e\<in>set es. \<not> isTakeoff e) \<longrightarrow> flightAreas (derivedAreas L es) = []"
    using scanEvents_no_takeoff [of "sortedEvents es" initialPhaseState L]
    by (simp add: derivedAreas_def set_sortedEvents init flightAreas_def)
  have c: "(\<forall>e\<in>set es. \<not> isLanding e) \<longrightarrow>
        flightAreas (areas (scanEvents L s es)) = flightAreas (areas s)"
    by (simp add: scanEvents_no_landing)
  have d: "(\<forall>e\<in>set es. \<not> isTransitEnd e) \<longrightarrow>
        transitAreas (areas (scanEvents L s es)) = transitAreas (areas s)"
    by (simp add: scanEvents_no_transit_end)
  have e: "(\<forall>e\<in>set es. \<not> isLanding e) \<longrightarrow> flightAreas (derivedAreas L es) = []"
    using scanEvents_no_landing [of "sortedEvents es" L initialPhaseState]
    by (simp add: derivedAreas_def set_sortedEvents init flightAreas_def)
  have f: "(\<forall>e\<in>set es. \<not> isTransitEnd e) \<longrightarrow> transitAreas (derivedAreas L es) = []"
    using scanEvents_no_transit_end [of "sortedEvents es" L initialPhaseState]
    by (simp add: derivedAreas_def set_sortedEvents init transitAreas_def)
  from a b c d e f show ?thesis by blast
qed

theorem unmatched_events_emit_no_area_witness:
  "isLanding (flightEvent ''Landing (Leg 1)'' 1704103200000)
   \<and> currentFlight (scanEvents (timeToLabel24 0) initialPhaseState []) = None
   \<and> areas (scanEvents (timeToLabel24 0) initialPhaseState
        [flightEvent ''Landing (Leg 1)'' 1704103200000]) = []
   \<and> list_all (\<lambda>e. \<not> isTransitEnd e) unmatchedEvents
   \<and> transitAreas (derivedAreas (timeToLabel24 0) unmatchedEvents) = []
   \<and> list_all (\<lambda>e. \<not> isLanding e) (tl unmatchedEvents)
   \<and> flightAreas (derivedAreas (timeToLabel24 0) (tl unmatchedEvents)) = []"
proof -
  let ?landing = "flightEvent ''Landing (Leg 1)'' 1704103200000"
  have first: "isLanding ?landing"
    by code_simp
  have nte: "\<not> isTransitEnd ?landing"
    by code_simp
  have c0: "currentFlight (scanEvents (timeToLabel24 0) initialPhaseState []) = None"
    by (simp add: scanEvents_Nil initialPhaseState_def)
  have nl: "\<forall>e\<in>set (tl unmatchedEvents). \<not> isLanding e"
    unfolding unmatchedEvents_def by (simp, code_simp)
  have nt: "\<forall>e\<in>set unmatchedEvents. \<not> isTransitEnd e"
    unfolding unmatchedEvents_def by (simp, code_simp)
  have a: "areas (scanEvents (timeToLabel24 0) initialPhaseState [?landing]) = []"
    using unmatched_events_emit_no_area [of "timeToLabel24 0" "[]" ?landing] c0 first nte
    by (simp add: scanEvents_Nil initialPhaseState_def)
  have b: "transitAreas (derivedAreas (timeToLabel24 0) unmatchedEvents) = []"
    using unmatched_events_emit_no_area [of "timeToLabel24 0" "[]" ?landing unmatchedEvents] nt
    by blast
  have c: "flightAreas (derivedAreas (timeToLabel24 0) (tl unmatchedEvents)) = []"
    using unmatched_events_emit_no_area [of "timeToLabel24 0" "[]" ?landing "tl unmatchedEvents"]
      nl
    by blast
  from first c0 a nt b nl c show ?thesis by (simp add: list_all_iff)
qed

subsection \<open>C10\<close>

text \<open>
  C10. When either bound of the visible window is zero the sample filter returns the whole
  health-sample sequence; this is the case for the initial window, which stays in place as
  long as the flight-event list is empty. Only when both bounds are nonzero are the samples
  restricted to those with start \<le> timestamp \<le> end.
\<close>

theorem filteredHealthData_zero_bound_bypass:
  "(start timeRange = 0 \<or> end' timeRange = 0 \<longrightarrow>
      filteredHealthData healthData timeRange = healthData)
   \<and> (start timeRange \<noteq> 0 \<and> end' timeRange \<noteq> 0 \<longrightarrow>
      filteredHealthData healthData timeRange =
        filter (\<lambda>d. start timeRange \<le> timestamp d \<and> timestamp d \<le> end' timeRange) healthData)
   \<and> filteredHealthData healthData (seedTimeRange [] initialTimeRange) = healthData"
  by (simp add: filteredHealthData_def seedTimeRange_def initialTimeRange_def)

theorem filteredHealthData_zero_bound_bypass_witness:
  "filteredHealthData windowSamples \<lparr>start = 0, end' = 30\<rparr> = windowSamples
   \<and> filteredHealthData windowSamples \<lparr>start = 10, end' = 0\<rparr> = windowSamples
   \<and> filteredHealthData windowSamples \<lparr>start = 10, end' = 30\<rparr> = [stressSample 20 40]"
proof -
  have a: "filteredHealthData windowSamples \<lparr>start = 0, end' = 30\<rparr> = windowSamples"
    using filteredHealthData_zero_bound_bypass [of "\<lparr>start = 0, end' = 30\<rparr>" windowSamples]
    by simp
  have b: "filteredHealthData windowSamples \<lparr>start = 10, end' = 0\<rparr> = windowSamples"
    using filteredHealthData_zero_bound_bypass [of "\<lparr>start = 10, end' = 0\<rparr>" windowSamples]
    by simp
  have c: "filteredHealthData windowSamples \<lparr>start = 10, end' = 30\<rparr> = [stressSample 20 40]"
    using filteredHealthData_zero_bound_bypass [of "\<lparr>start = 10, end' = 30\<rparr>" windowSamples]
    by (simp add: windowSamples_def stressSample_def)
  from a b c show ?thesis by simp
qed

end
